theory Spec2Isabelle
  imports Main "HOL-Library.Word"
begin

unbundle bit_operations_syntax

section \<open>Faults and result values\<close>

text \<open>
  The C++ code has no error returns. What it can do instead is leave the defined part of
  the language: index an array outside its bounds, overflow a signed integer, or call
  \<open>memcpy\<close> with the same object as source and destination. These are written into the
  model as values of type \<open>fault\<close>, and an operation that can reach one returns
  \<open>fault + result\<close>. The one exception is the copy of the two-slot exchanger, whose
  source index is not reduced to a slot: the call goes on and returns after it, so the
  model goes on as well, with what the copy read as a parameter.
\<close>

datatype fault = OutOfBounds nat | SignedOverflow | OverlappingCopy nat

definition bind_res :: "fault + 'a \<Rightarrow> ('a \<Rightarrow> fault + 'b) \<Rightarrow> fault + 'b" where
  "bind_res m f = (case m of Inl e \<Rightarrow> Inl e | Inr x \<Rightarrow> f x)"

section \<open>The compare-and-swap loop\<close>

text \<open>
  \<open>CompareExchange\<close> of both counter structs: the first argument is the counter it is
  called on, the result is the success flag and the counter afterwards.
\<close>

definition CompareExchange :: "'c \<Rightarrow> 'c \<Rightarrow> 'c \<Rightarrow> bool \<times> 'c" where
  "CompareExchange c old_val repl = (if c = old_val then (True, repl) else (False, c))"

text \<open>
  Every mutating operation is \<open>do { old_val = fCounter; new_val = body(old_val); }
  while (!fCounter.CompareExchange(old_val, new_val))\<close>. An operation is modelled as one
  atomic step: nothing runs between the load of \<open>old_val\<close> and the exchange. The loop
  returns the \<open>old_val\<close> of the successful iteration and the counter afterwards.
\<close>

function cas_loop :: "('c \<Rightarrow> 'c) \<Rightarrow> 'c \<Rightarrow> 'c \<times> 'c" where
  "cas_loop body c =
     (let old_val = c;
          new_val = body old_val
      in if fst (CompareExchange c old_val new_val)
         then (old_val, snd (CompareExchange c old_val new_val))
         else cas_loop body (snd (CompareExchange c old_val new_val)))"
  by pat_completeness auto
termination
  by (relation "{}") (simp_all add: CompareExchange_def)

declare cas_loop.simps [simp del]

section \<open>JackAtomicState.h: the two-slot exchanger\<close>

subsection \<open>AtomicCounter\<close>

record AtomicCounter =
  fShortVal1 :: "16 word"
  fShortVal2 :: "16 word"

definition CurIndex :: "AtomicCounter \<Rightarrow> 16 word" where
  "CurIndex c = fShortVal1 c"

definition SetCurIndex :: "16 word \<Rightarrow> AtomicCounter \<Rightarrow> AtomicCounter" where
  "SetCurIndex val c = c\<lparr>fShortVal1 := val\<rparr>"

definition NextIndex :: "AtomicCounter \<Rightarrow> 16 word" where
  "NextIndex c = fShortVal2 c"

definition SetNextIndex :: "16 word \<Rightarrow> AtomicCounter \<Rightarrow> AtomicCounter" where
  "SetNextIndex val c = c\<lparr>fShortVal2 := val\<rparr>"

definition CurArrayIndex :: "AtomicCounter \<Rightarrow> 16 word" where
  "CurArrayIndex c = CurIndex c AND 1"

definition NextArrayIndex :: "AtomicCounter \<Rightarrow> 16 word" where
  "NextArrayIndex c = (CurIndex c + 1) AND 1"

subsection \<open>JackAtomicState\<close>

text \<open>
  \<open>T fState[2]\<close> is a list of two payloads, a \<open>T*\<close> into it is the index of the slot,
  \<open>fCallWriteCounter\<close> is a signed 32-bit integer whose overflow is a fault.
\<close>

record 'a JackAtomicState =
  fState :: "'a list"
  fCounter :: AtomicCounter
  fCallWriteCounter :: int

definition JackAtomicState_init :: "'a \<Rightarrow> 'a \<Rightarrow> 'a JackAtomicState" where
  "JackAtomicState_init a b =
     \<lparr>fState = [a, b],
      fCounter = \<lparr>fShortVal1 = 0, fShortVal2 = 0\<rparr>,
      fCallWriteCounter = 0\<rparr>"

text \<open>
  \<open>WriteNextStateStartAux\<close>. \<open>cur_index\<close>, \<open>next_index\<close> and \<open>need_copy\<close> are read
  from \<open>new_val\<close> before it is changed, when it still equals \<open>old_val\<close>. The copy is
  \<open>memcpy(&fState[next_index], &fState[cur_index], sizeof(T))\<close> with
  \<open>cur_index = new_val.CurIndex()\<close>, the whole 16-bit index, and
  \<open>next_index = new_val.NextArrayIndex()\<close>. The code has no check on \<open>cur_index\<close>:
  with a \<open>cur_index\<close> of 2 or more the copy reads the bytes that lie behind the two
  slots, writes them into the pending slot, and the call returns as usual. What those
  bytes read as is not a payload of the exchanger; the first argument \<open>stray\<close> stands for
  it, one value for each call, and every theorem holds for every such value.
\<close>

definition WriteNextStateStartAux :: "'a \<Rightarrow> 'a JackAtomicState \<Rightarrow> 'a JackAtomicState \<times> nat" where
  "WriteNextStateStartAux stray s =
     (let (old_val, c) = cas_loop (\<lambda>new_val. SetNextIndex (CurIndex new_val) new_val) (fCounter s);
          cur_index = unat (CurIndex old_val);
          next_index = unat (NextArrayIndex old_val);
          need_copy = (CurIndex old_val = NextIndex old_val);
          s1 = s\<lparr>fCounter := c\<rparr>
      in if need_copy
         then (s1\<lparr>fState := (fState s1)
                  [next_index := (if cur_index < 2 then fState s1 ! cur_index else stray)]\<rparr>,
               next_index)
         else (s1, next_index))"

definition WriteNextStateStopAux :: "'a JackAtomicState \<Rightarrow> 'a JackAtomicState" where
  "WriteNextStateStopAux s =
     (let (old_val, c) = cas_loop (\<lambda>new_val. SetNextIndex (NextIndex new_val + 1) new_val) (fCounter s)
      in s\<lparr>fCounter := c\<rparr>)"

definition ReadCurrentState :: "'a JackAtomicState \<Rightarrow> nat" where
  "ReadCurrentState s = unat (CurArrayIndex (fCounter s))"

definition GetCurrentIndex :: "'a JackAtomicState \<Rightarrow> 16 word" where
  "GetCurrentIndex s = CurIndex (fCounter s)"

text \<open>\<open>TrySwitchState()\<close>: the new state and the slot it returns.\<close>

definition TrySwitchState :: "'a JackAtomicState \<Rightarrow> 'a JackAtomicState \<times> nat" where
  "TrySwitchState s =
     (let (old_val, c) = cas_loop (\<lambda>new_val. SetCurIndex (NextIndex new_val) new_val) (fCounter s);
          s1 = s\<lparr>fCounter := c\<rparr>
      in (s1, unat (CurArrayIndex (fCounter s1))))"

text \<open>\<open>TrySwitchState(bool* result)\<close>: the new state, the slot it returns and \<open>*result\<close>.\<close>

definition TrySwitchState_result :: "'a JackAtomicState \<Rightarrow> 'a JackAtomicState \<times> nat \<times> bool" where
  "TrySwitchState_result s =
     (let (old_val, c) = cas_loop (\<lambda>new_val. SetCurIndex (NextIndex new_val) new_val) (fCounter s);
          result = (CurIndex old_val \<noteq> NextIndex old_val);
          s1 = s\<lparr>fCounter := c\<rparr>
      in (s1, unat (CurArrayIndex (fCounter s1)), result))"

text \<open>
  \<open>WriteNextStateStart\<close>: \<open>fCallWriteCounter++ == 0\<close> compares the value before the
  increment, and the increment is done before either branch runs. The first argument is
  passed on to \<open>WriteNextStateStartAux\<close>.
\<close>

definition WriteNextStateStart :: "'a \<Rightarrow> 'a JackAtomicState \<Rightarrow> fault + 'a JackAtomicState \<times> nat" where
  "WriteNextStateStart stray s =
     (if fCallWriteCounter s = 2147483647 then Inl SignedOverflow
      else let s1 = s\<lparr>fCallWriteCounter := fCallWriteCounter s + 1\<rparr>
           in if fCallWriteCounter s = 0
              then Inr (WriteNextStateStartAux stray s1)
              else Inr (s1, unat (NextArrayIndex (fCounter s1))))"

definition WriteNextStateStop :: "'a JackAtomicState \<Rightarrow> fault + 'a JackAtomicState" where
  "WriteNextStateStop s =
     (if fCallWriteCounter s = - 2147483648 then Inl SignedOverflow
      else let s1 = s\<lparr>fCallWriteCounter := fCallWriteCounter s - 1\<rparr>
           in if fCallWriteCounter s1 = 0
              then Inr (WriteNextStateStopAux s1)
              else Inr s1)"

definition IsPendingChange :: "'a JackAtomicState \<Rightarrow> bool" where
  "IsPendingChange s = (CurIndex (fCounter s) \<noteq> NextIndex (fCounter s))"

text \<open>
  What a caller does with the \<open>T*\<close> an operation returned: the writer stores through it
  (it replaces the payload \<open>x\<close> of the slot by \<open>f x\<close>), the reader loads through it. A
  pointer outside the two slots cannot be used.
\<close>

definition store :: "nat \<Rightarrow> ('a \<Rightarrow> 'a) \<Rightarrow> 'a JackAtomicState \<Rightarrow> fault + 'a JackAtomicState" where
  "store i f s =
     (if i < 2 then Inr (s\<lparr>fState := (fState s)[i := f (fState s ! i)]\<rparr>)
      else Inl (OutOfBounds i))"

definition load :: "'a JackAtomicState \<Rightarrow> nat \<Rightarrow> fault + 'a" where
  "load s i = (if i < 2 then Inr (fState s ! i) else Inl (OutOfBounds i))"

section \<open>JackAtomicArrayState.h: the three-slot exchanger\<close>

subsection \<open>AtomicArrayCounter\<close>

text \<open>
  \<open>unsigned char fByteVal[4]\<close> is a list of four bytes; the methods index it with
  \<open>unsigned state\<close> and are only called by the operations below, which fault on an
  index outside it. The operations take \<open>int state\<close>; a negative one converts to an
  unsigned value far above 3, so the natural numbers cover every case.
\<close>

record AtomicArrayCounter =
  fByteVal :: "8 word list"

definition GetIndex1 :: "AtomicArrayCounter \<Rightarrow> nat \<Rightarrow> 8 word" where
  "GetIndex1 c state = fByteVal c ! state"

definition SetIndex1 :: "nat \<Rightarrow> 8 word \<Rightarrow> AtomicArrayCounter \<Rightarrow> AtomicArrayCounter" where
  "SetIndex1 state val c = c\<lparr>fByteVal := (fByteVal c)[state := val]\<rparr>"

definition IncIndex1 :: "nat \<Rightarrow> AtomicArrayCounter \<Rightarrow> AtomicArrayCounter" where
  "IncIndex1 state c = c\<lparr>fByteVal := (fByteVal c)[state := fByteVal c ! state + 1]\<rparr>"

text \<open>
  \<open>SwapIndex1\<close> assigns to a local copy of the counter only; what it returns is the
  assigned value, an \<open>unsigned char\<close>.
\<close>

definition SwapIndex1 :: "AtomicArrayCounter \<Rightarrow> nat \<Rightarrow> 8 word" where
  "SwapIndex1 c state = (if unat (fByteVal c ! 0) = state then 0 else word_of_nat state)"

subsection \<open>JackAtomicArrayState\<close>

record 'a JackAtomicArrayState =
  fState_arr :: "'a list"
  fCounter_arr :: AtomicArrayCounter

definition JackAtomicArrayState_init :: "'a \<Rightarrow> 'a \<Rightarrow> 'a \<Rightarrow> 'a JackAtomicArrayState" where
  "JackAtomicArrayState_init a b c =
     \<lparr>fState_arr = [a, b, c], fCounter_arr = \<lparr>fByteVal = [0, 0, 0, 0]\<rparr>\<rparr>"

text \<open>
  \<open>WriteNextStateStartAux(int state, bool* result)\<close>: the new state, the index it
  returns and \<open>*result\<close>. \<open>next_index\<close> is read from \<open>fCounter\<close> itself, which in the
  successful iteration holds \<open>old_val\<close>. \<open>fState\<close> has three slots, and the copy is a
  \<open>memcpy\<close>, so its source and destination must be different slots.
\<close>

definition WriteNextStateStartAux_arr ::
    "nat \<Rightarrow> 'a JackAtomicArrayState \<Rightarrow> fault + 'a JackAtomicArrayState \<times> nat \<times> bool" where
  "WriteNextStateStartAux_arr state s =
     (if 4 \<le> state then Inl (OutOfBounds state)
      else let (old_val, c) = cas_loop (\<lambda>new_val. SetIndex1 state 0 new_val) (fCounter_arr s);
               result = (GetIndex1 old_val state \<noteq> 0);
               cur_index = unat (GetIndex1 old_val 0);
               next_index = unat (SwapIndex1 old_val state);
               need_copy = (GetIndex1 old_val state = 0);
               s1 = s\<lparr>fCounter_arr := c\<rparr>
           in if need_copy
              then (if 3 \<le> cur_index then Inl (OutOfBounds cur_index)
                    else if 3 \<le> next_index then Inl (OutOfBounds next_index)
                    else if cur_index = next_index then Inl (OverlappingCopy cur_index)
                    else Inr (s1\<lparr>fState_arr := (fState_arr s1)[next_index := fState_arr s1 ! cur_index]\<rparr>,
                              next_index, result))
              else Inr (s1, next_index, result))"

definition WriteNextStateStopAux_arr ::
    "nat \<Rightarrow> 'a JackAtomicArrayState \<Rightarrow> fault + 'a JackAtomicArrayState" where
  "WriteNextStateStopAux_arr state s =
     (if 4 \<le> state then Inl (OutOfBounds state)
      else let (old_val, c) = cas_loop (\<lambda>new_val. SetIndex1 state 1 new_val) (fCounter_arr s)
           in Inr (s\<lparr>fCounter_arr := c\<rparr>))"

definition ReadCurrentState_arr :: "'a JackAtomicArrayState \<Rightarrow> nat" where
  "ReadCurrentState_arr s = unat (GetIndex1 (fCounter_arr s) 0)"

definition GetCurrentIndex_arr :: "'a JackAtomicArrayState \<Rightarrow> 16 word" where
  "GetCurrentIndex_arr s = ucast (GetIndex1 (fCounter_arr s) 3)"

text \<open>The body of the loop of both \<open>TrySwitchState\<close> overloads.\<close>

definition switch_body :: "nat \<Rightarrow> AtomicArrayCounter \<Rightarrow> AtomicArrayCounter" where
  "switch_body state new_val =
     (if GetIndex1 new_val state \<noteq> 0
      then IncIndex1 3 (SetIndex1 state 0 (SetIndex1 0 (SwapIndex1 new_val state) new_val))
      else new_val)"

text \<open>\<open>TrySwitchState(int state)\<close>: the new state and the slot it returns.\<close>

definition TrySwitchState_arr ::
    "nat \<Rightarrow> 'a JackAtomicArrayState \<Rightarrow> fault + 'a JackAtomicArrayState \<times> nat" where
  "TrySwitchState_arr state s =
     (if 4 \<le> state then Inl (OutOfBounds state)
      else let (old_val, c) = cas_loop (switch_body state) (fCounter_arr s);
               s1 = s\<lparr>fCounter_arr := c\<rparr>
           in Inr (s1, unat (GetIndex1 (fCounter_arr s1) 0)))"

text \<open>\<open>TrySwitchState(int state, bool* result)\<close>: also \<open>*result\<close>.\<close>

definition TrySwitchState_result_arr ::
    "nat \<Rightarrow> 'a JackAtomicArrayState \<Rightarrow> fault + 'a JackAtomicArrayState \<times> nat \<times> bool" where
  "TrySwitchState_result_arr state s =
     (if 4 \<le> state then Inl (OutOfBounds state)
      else let (old_val, c) = cas_loop (switch_body state) (fCounter_arr s);
               result = (GetIndex1 old_val state \<noteq> 0);
               s1 = s\<lparr>fCounter_arr := c\<rparr>
           in Inr (s1, unat (GetIndex1 (fCounter_arr s1) 0), result))"

text \<open>\<open>WriteNextStateStart(int state, bool* result)\<close> and \<open>WriteNextStateStart(int state)\<close>.\<close>

definition WriteNextStateStart_result_arr ::
    "nat \<Rightarrow> 'a JackAtomicArrayState \<Rightarrow> fault + 'a JackAtomicArrayState \<times> nat \<times> bool" where
  "WriteNextStateStart_result_arr state s = WriteNextStateStartAux_arr state s"

definition WriteNextStateStart_arr ::
    "nat \<Rightarrow> 'a JackAtomicArrayState \<Rightarrow> fault + 'a JackAtomicArrayState \<times> nat" where
  "WriteNextStateStart_arr state s =
     bind_res (WriteNextStateStartAux_arr state s) (\<lambda>(s1, index, tmp). Inr (s1, index))"

definition WriteNextStateStop_arr ::
    "nat \<Rightarrow> 'a JackAtomicArrayState \<Rightarrow> fault + 'a JackAtomicArrayState" where
  "WriteNextStateStop_arr state s = WriteNextStateStopAux_arr state s"

definition store_arr ::
    "nat \<Rightarrow> ('a \<Rightarrow> 'a) \<Rightarrow> 'a JackAtomicArrayState \<Rightarrow> fault + 'a JackAtomicArrayState" where
  "store_arr i f s =
     (if i < 3 then Inr (s\<lparr>fState_arr := (fState_arr s)[i := f (fState_arr s ! i)]\<rparr>)
      else Inl (OutOfBounds i))"

definition load_arr :: "'a JackAtomicArrayState \<Rightarrow> nat \<Rightarrow> fault + 'a" where
  "load_arr s i = (if i < 3 then Inr (fState_arr s ! i) else Inl (OutOfBounds i))"

section \<open>Client threads\<close>

text \<open>
  The header's usage comment gives the calling pattern: a writer calls
  \<open>WriteNextStateStart\<close>, stores through the pointer it got, and calls
  \<open>WriteNextStateStop\<close>; the realtime thread calls \<open>TrySwitchState\<close>. A run of the
  threads is the list of their calls in the order in which they take effect. The
  configuration keeps, beside the exchanger, what the callers hold: the pointers the
  writer got from calls it has not yet closed (innermost first) and the flags the calls
  reported (latest first). A \<open>BeginWrite\<close> carries the \<open>stray\<close> value of its call.
\<close>

datatype 'a op = BeginWrite 'a | Store "'a \<Rightarrow> 'a" | EndWrite | Switch

record 'a config =
  exch :: "'a JackAtomicState"
  ptrs :: "nat list"
  switched :: "bool list"

definition start :: "'a JackAtomicState \<Rightarrow> 'a config" where
  "start s = \<lparr>exch = s, ptrs = [], switched = []\<rparr>"

fun step :: "'a op \<Rightarrow> 'a config \<Rightarrow> fault + 'a config" where
  "step (BeginWrite stray) c =
     bind_res (WriteNextStateStart stray (exch c))
       (\<lambda>(s, i). Inr (c\<lparr>exch := s, ptrs := i # ptrs c\<rparr>))"
| "step (Store f) c =
     (case ptrs c of
        [] \<Rightarrow> Inr c
      | i # _ \<Rightarrow> bind_res (store i f (exch c)) (\<lambda>s. Inr (c\<lparr>exch := s\<rparr>)))"
| "step EndWrite c =
     bind_res (WriteNextStateStop (exch c)) (\<lambda>s. Inr (c\<lparr>exch := s, ptrs := tl (ptrs c)\<rparr>))"
| "step Switch c =
     (case TrySwitchState_result (exch c) of
        (s, i, result) \<Rightarrow> Inr (c\<lparr>exch := s, switched := result # switched c\<rparr>))"

fun run :: "'a op list \<Rightarrow> 'a config \<Rightarrow> fault + 'a config" where
  "run [] c = Inr c"
| "run (x # xs) c = bind_res (step x c) (run xs)"

text \<open>
  The single-writer discipline: calls are paired and nested, so no prefix of a run closes
  more write regions than it has opened, and the writer stores only inside a region. The
  second argument is the number of regions open before the run.
\<close>

fun paired :: "'a op list \<Rightarrow> nat \<Rightarrow> bool" where
  "paired [] d = True"
| "paired (BeginWrite stray # xs) d = paired xs (Suc d)"
| "paired (Store f # xs) d = (0 < d \<and> paired xs d)"
| "paired (EndWrite # xs) d = (0 < d \<and> paired xs (d - 1))"
| "paired (Switch # xs) d = paired xs d"

text \<open>
  \<open>n\<close> complete rounds of the calling pattern: the writer opens and closes a write
  region, then the realtime thread switches.
\<close>

fun rounds :: "nat \<Rightarrow> 'a \<Rightarrow> 'a op list" where
  "rounds 0 g = []"
| "rounds (Suc n) g = [BeginWrite g, EndWrite, Switch] @ rounds n g"

text \<open>
  The array exchanger has one writer for each pending state; a configuration keeps, for
  each writer inside a write region, the slot it was handed.
\<close>

datatype 'a op_arr =
  BeginWrite_arr nat | Store_arr nat "'a \<Rightarrow> 'a" | EndWrite_arr nat | Switch_arr nat

record 'a config_arr =
  exch_arr :: "'a JackAtomicArrayState"
  held :: "(nat \<times> nat) list"
  was_published :: "bool list"
  switched_arr :: "bool list"

definition start_arr :: "'a JackAtomicArrayState \<Rightarrow> 'a config_arr" where
  "start_arr s = \<lparr>exch_arr = s, held = [], was_published = [], switched_arr = []\<rparr>"

fun step_arr :: "'a op_arr \<Rightarrow> 'a config_arr \<Rightarrow> fault + 'a config_arr" where
  "step_arr (BeginWrite_arr p) c =
     bind_res (WriteNextStateStart_result_arr p (exch_arr c))
       (\<lambda>(s, i, result). Inr (c\<lparr>exch_arr := s, held := (p, i) # held c,
                                 was_published := result # was_published c\<rparr>))"
| "step_arr (Store_arr p f) c =
     (case map_of (held c) p of
        None \<Rightarrow> Inr c
      | Some i \<Rightarrow> bind_res (store_arr i f (exch_arr c)) (\<lambda>s. Inr (c\<lparr>exch_arr := s\<rparr>)))"
| "step_arr (EndWrite_arr p) c =
     bind_res (WriteNextStateStop_arr p (exch_arr c))
       (\<lambda>s. Inr (c\<lparr>exch_arr := s, held := filter (\<lambda>(q, i). q \<noteq> p) (held c)\<rparr>))"
| "step_arr (Switch_arr p) c =
     bind_res (TrySwitchState_result_arr p (exch_arr c))
       (\<lambda>(s, i, result). Inr (c\<lparr>exch_arr := s, switched_arr := result # switched_arr c\<rparr>))"

fun run_arr :: "'a op_arr list \<Rightarrow> 'a config_arr \<Rightarrow> fault + 'a config_arr" where
  "run_arr [] c = Inr c"
| "run_arr (x # xs) c = bind_res (step_arr x c) (run_arr xs)"

text \<open>
  The orders in which the calls of two threads can take effect, each thread's own calls in
  program order.
\<close>

fun interleavings :: "'a list \<Rightarrow> 'a list \<Rightarrow> 'a list list" where
  "interleavings [] ys = [ys]"
| "interleavings xs [] = [xs]"
| "interleavings (x # xs) (y # ys) =
     map ((#) x) (interleavings xs (y # ys)) @ map ((#) y) (interleavings (x # xs) ys)"

section \<open>Well-formed states and the protocol invariant\<close>

text \<open>
  An array exchanger as the constructor and the operations on pending states 1 and 2 leave
  it: three slots, four counter bytes, and a current slot among the three.
\<close>

definition wf_arr :: "'a JackAtomicArrayState \<Rightarrow> bool" where
  "wf_arr s =
     (length (fState_arr s) = 3 \<and> length (fByteVal (fCounter_arr s)) = 4
      \<and> unat (GetIndex1 (fCounter_arr s) 0) < 3)"

text \<open>
  What holds of the two-slot exchanger and its single writer along every run: the write
  counter is the number of open write regions; inside a region \<open>next = cur\<close>; outside,
  \<open>next\<close> is \<open>cur\<close> or \<open>cur + 1\<close>; and every pointer the writer holds is the pending slot.
\<close>

definition protocol_inv :: "'a config \<Rightarrow> bool" where
  "protocol_inv c =
     (length (fState (exch c)) = 2
      \<and> fCallWriteCounter (exch c) = int (length (ptrs c))
      \<and> (ptrs c \<noteq> [] \<longrightarrow> NextIndex (fCounter (exch c)) = CurIndex (fCounter (exch c)))
      \<and> (NextIndex (fCounter (exch c)) = CurIndex (fCounter (exch c))
           \<or> NextIndex (fCounter (exch c)) = CurIndex (fCounter (exch c)) + 1)
      \<and> (\<forall>i\<in>set (ptrs c). i = unat (NextArrayIndex (fCounter (exch c)))))"

text \<open>The pending state a call of the array exchanger is about.\<close>

fun op_id :: "'a op_arr \<Rightarrow> nat" where
  "op_id (BeginWrite_arr p) = p"
| "op_id (Store_arr p f) = p"
| "op_id (EndWrite_arr p) = p"
| "op_id (Switch_arr p) = p"

text \<open>
  What holds of the array exchanger along every run that uses one pending state \<open>p\<close>
  only: the current slot is 0 or \<open>p\<close>, \<open>byte[p]\<close> is 0 while the writer is inside a
  write region, and the slot the writer holds is the one of 0 and \<open>p\<close> that is not
  current.
\<close>

definition arr_inv :: "nat \<Rightarrow> 'a config_arr \<Rightarrow> bool" where
  "arr_inv p c =
     (wf_arr (exch_arr c)
      \<and> (ReadCurrentState_arr (exch_arr c) = 0 \<or> ReadCurrentState_arr (exch_arr c) = p)
      \<and> (held c \<noteq> [] \<longrightarrow> GetIndex1 (fCounter_arr (exch_arr c)) p = 0)
      \<and> (\<forall>x\<in>set (held c). x = (p, if ReadCurrentState_arr (exch_arr c) = p then 0 else p)))"

section \<open>Basic facts\<close>

lemma cas_loop_eq: "cas_loop body c = (c, body c)"
  by (simp add: cas_loop.simps CompareExchange_def)

lemmas counter_defs =
  CurIndex_def SetCurIndex_def NextIndex_def SetNextIndex_def CurArrayIndex_def NextArrayIndex_def

lemmas single_defs =
  WriteNextStateStartAux_def WriteNextStateStopAux_def ReadCurrentState_def GetCurrentIndex_def
  TrySwitchState_def TrySwitchState_result_def WriteNextStateStart_def WriteNextStateStop_def
  IsPendingChange_def store_def load_def JackAtomicState_init_def start_def bind_res_def
  cas_loop_eq counter_defs

lemmas array_counter_defs =
  GetIndex1_def SetIndex1_def IncIndex1_def SwapIndex1_def switch_body_def

lemmas array_defs =
  WriteNextStateStartAux_arr_def WriteNextStateStopAux_arr_def ReadCurrentState_arr_def
  GetCurrentIndex_arr_def TrySwitchState_arr_def TrySwitchState_result_arr_def
  WriteNextStateStart_result_arr_def WriteNextStateStart_arr_def WriteNextStateStop_arr_def
  store_arr_def load_arr_def JackAtomicArrayState_init_def start_arr_def bind_res_def
  cas_loop_eq array_counter_defs

subsection \<open>The two-slot exchanger, operation by operation\<close>

lemma TrySwitchState_result_eq:
  "TrySwitchState_result s =
     (s\<lparr>fCounter := SetCurIndex (NextIndex (fCounter s)) (fCounter s)\<rparr>,
      unat (NextIndex (fCounter s) AND 1),
      CurIndex (fCounter s) \<noteq> NextIndex (fCounter s))"
  by (simp add: TrySwitchState_result_def cas_loop_eq counter_defs)

lemma TrySwitchState_eq:
  "TrySwitchState s =
     (s\<lparr>fCounter := SetCurIndex (NextIndex (fCounter s)) (fCounter s)\<rparr>,
      unat (NextIndex (fCounter s) AND 1))"
  by (simp add: TrySwitchState_def cas_loop_eq counter_defs)

lemma SetCurIndex_idle: "CurIndex k = NextIndex k \<Longrightarrow> SetCurIndex (NextIndex k) k = k"
  by (simp add: counter_defs)

lemma WriteNextStateStartAux_eq:
  "WriteNextStateStartAux stray s =
     (if CurIndex (fCounter s) = NextIndex (fCounter s)
      then (s\<lparr>fState := (fState s)[unat (NextArrayIndex (fCounter s))
                  := (if unat (CurIndex (fCounter s)) < 2
                      then fState s ! unat (CurIndex (fCounter s)) else stray)]\<rparr>,
            unat (NextArrayIndex (fCounter s)))
      else (s\<lparr>fCounter := SetNextIndex (CurIndex (fCounter s)) (fCounter s)\<rparr>,
            unat (NextArrayIndex (fCounter s))))"
  by (simp add: WriteNextStateStartAux_def cas_loop_eq counter_defs Let_def)

lemma WriteNextStateStopAux_eq:
  "WriteNextStateStopAux s = s\<lparr>fCounter := SetNextIndex (NextIndex (fCounter s) + 1) (fCounter s)\<rparr>"
  by (simp add: WriteNextStateStopAux_def cas_loop_eq)

text \<open>The two slots of an index and of its successor differ.\<close>

lemma slot_parity: "(x + 1) AND 1 \<noteq> x AND (1::16 word)"
  by (cases "even x") (simp_all add: and_one_eq mod_2_eq_odd)

lemma slot_lt_2: "unat (x AND (1::16 word)) < 2"
  by (cases "even x") (simp_all add: and_one_eq mod_2_eq_odd)

lemma unat_slot_parity: "unat ((x + 1) AND 1) \<noteq> unat (x AND (1::16 word))"
  using slot_parity [of x] by (simp add: word_unat_eq_iff)

lemma load_current: "load s (ReadCurrentState s) = Inr (fState s ! ReadCurrentState s)"
  using slot_lt_2 [of "CurIndex (fCounter s)"]
  by (simp add: load_def ReadCurrentState_def CurArrayIndex_def)

lemma small_index: "unat (x::16 word) < 2 \<Longrightarrow> unat (x AND 1) = unat x"
proof -
  assume "unat x < 2"
  then have "unat x = 0 \<or> unat x = 1" by auto
  then have "x = 0 \<or> x = 1" by (auto simp: word_unat_eq_iff)
  then show ?thesis by auto
qed

subsection \<open>The invariant along a run\<close>

lemma step_ptrs:
  assumes "step x c = Inr c1"
  shows "length (ptrs c1) =
           (case x of BeginWrite g \<Rightarrow> Suc (length (ptrs c)) | EndWrite \<Rightarrow> length (ptrs c) - 1
            | _ \<Rightarrow> length (ptrs c))"
  using assms
  by (cases x)
     (auto simp: bind_res_def TrySwitchState_result_eq split: sum.splits list.splits prod.splits)

lemma step_BeginWrite_inv:
  assumes "protocol_inv c" "step (BeginWrite g) c = Inr c1"
  shows "protocol_inv c1"
proof (cases "ptrs c")
  case Nil
  then have d: "fCallWriteCounter (exch c) = 0" using assms(1) by (simp add: protocol_inv_def)
  from assms(2) d obtain s i where
    aux: "WriteNextStateStartAux g ((exch c)\<lparr>fCallWriteCounter := 1\<rparr>) = (s, i)"
    and c1: "c1 = c\<lparr>exch := s, ptrs := [i]\<rparr>"
    using Nil by (auto simp: bind_res_def WriteNextStateStart_def split: sum.splits prod.splits)
  from aux assms(1) Nil show ?thesis unfolding c1 WriteNextStateStartAux_eq
    by (auto simp: protocol_inv_def counter_defs split: if_splits)
next
  case (Cons j js)
  then have d: "fCallWriteCounter (exch c) \<noteq> 0" using assms(1) by (simp add: protocol_inv_def)
  from assms(2) d have
    c1: "c1 = c\<lparr>exch := (exch c)\<lparr>fCallWriteCounter := fCallWriteCounter (exch c) + 1\<rparr>,
               ptrs := unat (NextArrayIndex (fCounter (exch c))) # ptrs c\<rparr>"
    by (auto simp: bind_res_def WriteNextStateStart_def split: sum.splits if_splits)
  from assms(1) Cons show ?thesis unfolding c1
    by (auto simp: protocol_inv_def)
qed

lemma step_EndWrite_inv:
  assumes "protocol_inv c" "step EndWrite c = Inr c1" "ptrs c \<noteq> []"
  shows "protocol_inv c1"
proof -
  obtain j js where p: "ptrs c = j # js" using assms(3) by (cases "ptrs c") auto
  have d: "fCallWriteCounter (exch c) = 1 + int (length js)"
    using assms(1) p by (simp add: protocol_inv_def)
  show ?thesis
  proof (cases js)
    case Nil
    with d assms(2) p have
      c1: "c1 = c\<lparr>exch := WriteNextStateStopAux ((exch c)\<lparr>fCallWriteCounter := 0\<rparr>), ptrs := []\<rparr>"
      by (auto simp: bind_res_def WriteNextStateStop_def split: sum.splits if_splits)
    from assms(1) p show ?thesis unfolding c1 WriteNextStateStopAux_eq
      by (auto simp: protocol_inv_def counter_defs)
  next
    case (Cons k ks)
    with d assms(2) p have
      c1: "c1 = c\<lparr>exch := (exch c)\<lparr>fCallWriteCounter := fCallWriteCounter (exch c) - 1\<rparr>, ptrs := js\<rparr>"
      by (auto simp: bind_res_def WriteNextStateStop_def split: sum.splits if_splits)
    from assms(1) p Cons show ?thesis unfolding c1
      by (auto simp: protocol_inv_def)
  qed
qed

lemma step_Store_inv:
  assumes "protocol_inv c" "step (Store f) c = Inr c1"
  shows "protocol_inv c1"
  using assms
  by (auto simp: protocol_inv_def store_def bind_res_def split: list.splits if_splits)

lemma step_Switch_inv:
  assumes "protocol_inv c" "step Switch c = Inr c1"
  shows "protocol_inv c1"
  using assms
  by (auto simp: protocol_inv_def TrySwitchState_result_eq counter_defs)

lemma step_inv:
  assumes "protocol_inv c" "step x c = Inr c1" "x = EndWrite \<longrightarrow> ptrs c \<noteq> []"
  shows "protocol_inv c1"
  using assms
  by (cases x) (auto intro: step_BeginWrite_inv step_EndWrite_inv step_Store_inv step_Switch_inv)

lemma run_inv:
  "protocol_inv c \<Longrightarrow> paired xs (length (ptrs c)) \<Longrightarrow> run xs c = Inr c1 \<Longrightarrow> protocol_inv c1"
proof (induction xs arbitrary: c)
  case Nil
  then show ?case by simp
next
  case (Cons x xs)
  from Cons.prems(3) obtain c2 where s: "step x c = Inr c2" and r: "run xs c2 = Inr c1"
    by (auto simp: bind_res_def split: sum.splits)
  have e: "x = EndWrite \<longrightarrow> ptrs c \<noteq> []" using Cons.prems(2) by auto
  have i2: "protocol_inv c2" by (rule step_inv [OF Cons.prems(1) s e])
  have "paired xs (length (ptrs c2))"
    using Cons.prems(2) step_ptrs [OF s] by (cases x) auto
  then show ?case using Cons.IH [OF i2 _ r] by simp
qed

lemma start_inv: "protocol_inv (start (JackAtomicState_init a b))"
  by (simp add: protocol_inv_def start_def JackAtomicState_init_def counter_defs)

lemma reachable_inv:
  "paired xs 0 \<Longrightarrow> run xs (start (JackAtomicState_init a b)) = Inr c \<Longrightarrow> protocol_inv c"
  using run_inv [OF start_inv, of xs a b c] by (simp add: start_def)

text \<open>
  A run that keeps the single-writer discipline never leaves the defined part of the
  language (short of \<open>2\<^sup>3\<^sup>1\<close> nested calls), so such a run always has a final
  configuration.
\<close>

lemma step_no_fault:
  assumes "protocol_inv c" and "x = EndWrite \<longrightarrow> ptrs c \<noteq> []"
    and "length (ptrs c) < 2147483647"
  shows "\<exists>c1. step x c = Inr c1"
proof (cases x)
  case (BeginWrite g)
  have "fCallWriteCounter (exch c) \<noteq> 2147483647"
    using assms(1,3) by (simp add: protocol_inv_def)
  then show ?thesis using BeginWrite
    by (simp add: bind_res_def WriteNextStateStart_def Let_def split: prod.splits)
next
  case (Store f)
  show ?thesis
  proof (cases "ptrs c")
    case Nil
    then show ?thesis using Store by simp
  next
    case (Cons i js)
    then have "i = unat (NextArrayIndex (fCounter (exch c)))"
      using assms(1) by (simp add: protocol_inv_def)
    then have "i < 2" using slot_lt_2 by (simp add: NextArrayIndex_def)
    then show ?thesis using Store Cons by (simp add: bind_res_def store_def)
  qed
next
  case EndWrite
  have "fCallWriteCounter (exch c) \<noteq> - 2147483648"
    using assms(1) by (simp add: protocol_inv_def)
  then show ?thesis using EndWrite
    by (simp add: bind_res_def WriteNextStateStop_def Let_def)
next
  case Switch
  then show ?thesis by (simp split: prod.splits)
qed

lemma run_no_fault:
  "protocol_inv c \<Longrightarrow> paired xs (length (ptrs c))
     \<Longrightarrow> length (ptrs c) + length xs < 2147483647 \<Longrightarrow> \<exists>c1. run xs c = Inr c1"
proof (induction xs arbitrary: c)
  case Nil
  then show ?case by simp
next
  case (Cons x xs)
  have e: "x = EndWrite \<longrightarrow> ptrs c \<noteq> []" using Cons.prems(2) by auto
  have small: "length (ptrs c) < 2147483647" using Cons.prems(3) by simp
  obtain c2 where s: "step x c = Inr c2"
    using step_no_fault [OF Cons.prems(1) e small] by blast
  have i2: "protocol_inv c2" by (rule step_inv [OF Cons.prems(1) s e])
  have l: "length (ptrs c2) \<le> Suc (length (ptrs c))"
    using step_ptrs [OF s] by (cases x) auto
  have p2: "paired xs (length (ptrs c2))"
    using Cons.prems(2) step_ptrs [OF s] by (cases x) auto
  have "length (ptrs c2) + length xs < 2147483647" using l Cons.prems(3) by simp
  from Cons.IH [OF i2 p2 this] s show ?case by (simp add: bind_res_def)
qed

text \<open>
  Each round advances both indices by one, so every idle counter \<open>(k, k)\<close> and every
  published counter \<open>(k, k + 1)\<close> of the 16-bit range is reached from the constructed
  state, the wrap-around from 65535 to 0 included.
\<close>

lemma paired_rounds: "paired (rounds n g @ xs) d = paired xs d"
  by (induction n) simp_all

lemma run_append: "run (xs @ ys) c = bind_res (run xs c) (run ys)"
  by (induction xs arbitrary: c) (simp_all add: bind_res_def split: sum.splits)

lemma one_round:
  assumes "length (fState (exch c)) = 2" and "fCallWriteCounter (exch c) = 0" and "ptrs c = []"
    and "CurIndex (fCounter (exch c)) = k" and "NextIndex (fCounter (exch c)) = k"
  shows "\<exists>c1. run [BeginWrite g, EndWrite, Switch] c = Inr c1
           \<and> length (fState (exch c1)) = 2 \<and> fCallWriteCounter (exch c1) = 0 \<and> ptrs c1 = []
           \<and> CurIndex (fCounter (exch c1)) = k + 1 \<and> NextIndex (fCounter (exch c1)) = k + 1"
  using assms
  by (simp add: bind_res_def WriteNextStateStart_def WriteNextStateStartAux_eq Let_def
      WriteNextStateStop_def WriteNextStateStopAux_eq TrySwitchState_result_eq counter_defs)

lemma rounds_reach:
  "length (fState (exch c)) = 2 \<Longrightarrow> fCallWriteCounter (exch c) = 0 \<Longrightarrow> ptrs c = []
     \<Longrightarrow> CurIndex (fCounter (exch c)) = k \<Longrightarrow> NextIndex (fCounter (exch c)) = k
     \<Longrightarrow> \<exists>c1. run (rounds n g) c = Inr c1
           \<and> length (fState (exch c1)) = 2 \<and> fCallWriteCounter (exch c1) = 0 \<and> ptrs c1 = []
           \<and> CurIndex (fCounter (exch c1)) = k + of_nat n
           \<and> NextIndex (fCounter (exch c1)) = k + of_nat n"
proof (induction n arbitrary: c k)
  case 0
  then show ?case by simp
next
  case (Suc n)
  from one_round [OF Suc.prems, of g] obtain c2 where
    r: "run [BeginWrite g, EndWrite, Switch] c = Inr c2"
    and a: "length (fState (exch c2)) = 2" "fCallWriteCounter (exch c2) = 0" "ptrs c2 = []"
      "CurIndex (fCounter (exch c2)) = k + 1" "NextIndex (fCounter (exch c2)) = k + 1"
    by blast
  from Suc.IH [OF a] obtain c1 where
    b: "run (rounds n g) c2 = Inr c1" "length (fState (exch c1)) = 2"
    "fCallWriteCounter (exch c1) = 0" "ptrs c1 = []"
    "CurIndex (fCounter (exch c1)) = k + 1 + of_nat n"
    "NextIndex (fCounter (exch c1)) = k + 1 + of_nat n"
    by blast
  have "run (rounds (Suc n) g) c = run (rounds n g) c2"
    unfolding rounds.simps run_append r by (simp add: bind_res_def)
  then show ?case using b by (simp add: ac_simps)
qed

lemma every_idle_counter_reached:
  "\<exists>xs c. paired xs 0 \<and> run xs (start (JackAtomicState_init a b)) = Inr c
     \<and> ptrs c = [] \<and> CurIndex (fCounter (exch c)) = k \<and> NextIndex (fCounter (exch c)) = k"
proof -
  let ?c0 = "start (JackAtomicState_init a b)"
  have "\<exists>c1. run (rounds (unat k) a) ?c0 = Inr c1
           \<and> length (fState (exch c1)) = 2 \<and> fCallWriteCounter (exch c1) = 0 \<and> ptrs c1 = []
           \<and> CurIndex (fCounter (exch c1)) = 0 + of_nat (unat k)
           \<and> NextIndex (fCounter (exch c1)) = 0 + of_nat (unat k)"
    by (rule rounds_reach) (simp_all add: start_def JackAtomicState_init_def counter_defs)
  moreover have "paired (rounds (unat k) a) 0"
    using paired_rounds [of "unat k" a "[]" 0] by simp
  ultimately show ?thesis by auto
qed

lemma every_published_counter_reached:
  "\<exists>xs c. paired xs 0 \<and> run xs (start (JackAtomicState_init a b)) = Inr c
     \<and> ptrs c = [] \<and> CurIndex (fCounter (exch c)) = k \<and> NextIndex (fCounter (exch c)) = k + 1"
proof -
  let ?c0 = "start (JackAtomicState_init a b)"
  have "\<exists>c1. run (rounds (unat k) a) ?c0 = Inr c1
           \<and> length (fState (exch c1)) = 2 \<and> fCallWriteCounter (exch c1) = 0 \<and> ptrs c1 = []
           \<and> CurIndex (fCounter (exch c1)) = 0 + of_nat (unat k)
           \<and> NextIndex (fCounter (exch c1)) = 0 + of_nat (unat k)"
    by (rule rounds_reach) (simp_all add: start_def JackAtomicState_init_def counter_defs)
  then obtain c1 where r: "run (rounds (unat k) a) ?c0 = Inr c1"
    and a: "length (fState (exch c1)) = 2" "fCallWriteCounter (exch c1) = 0" "ptrs c1 = []"
      "CurIndex (fCounter (exch c1)) = k" "NextIndex (fCounter (exch c1)) = k"
    by auto
  have "\<exists>c2. run [BeginWrite a, EndWrite] c1 = Inr c2 \<and> ptrs c2 = []
          \<and> CurIndex (fCounter (exch c2)) = k \<and> NextIndex (fCounter (exch c2)) = k + 1"
    using a
    by (simp add: bind_res_def WriteNextStateStart_def WriteNextStateStartAux_eq Let_def
        WriteNextStateStop_def WriteNextStateStopAux_eq counter_defs)
  then obtain c2 where "run [BeginWrite a, EndWrite] c1 = Inr c2" "ptrs c2 = []"
    "CurIndex (fCounter (exch c2)) = k" "NextIndex (fCounter (exch c2)) = k + 1" by blast
  then have "run (rounds (unat k) a @ [BeginWrite a, EndWrite]) ?c0 = Inr c2"
    using r by (simp add: run_append bind_res_def del: run.simps)
  moreover have "paired (rounds (unat k) a @ [BeginWrite a, EndWrite]) 0"
    by (simp add: paired_rounds)
  ultimately show ?thesis
    using \<open>ptrs c2 = []\<close> \<open>CurIndex (fCounter (exch c2)) = k\<close>
      \<open>NextIndex (fCounter (exch c2)) = k + 1\<close> by blast
qed

subsection \<open>The array exchanger, operation by operation\<close>

lemma SwapIndex1_toggle:
  "p \<in> {1, 2} \<Longrightarrow> unat (SwapIndex1 c p) = (if unat (GetIndex1 c 0) = p then 0 else p)"
  by (auto simp: SwapIndex1_def GetIndex1_def)

lemma SetIndex1_bytes:
  assumes "length (fByteVal c) = 4" "p \<in> {1, 2}"
  shows "GetIndex1 (SetIndex1 p v c) p = v"
    and "GetIndex1 (SetIndex1 p v c) 0 = GetIndex1 c 0"
    and "GetIndex1 (SetIndex1 p v c) 3 = GetIndex1 c 3"
    and "q \<in> {1, 2} \<Longrightarrow> q \<noteq> p \<Longrightarrow> GetIndex1 (SetIndex1 p v c) q = GetIndex1 c q"
    and "length (fByteVal (SetIndex1 p v c)) = 4"
  using assms by (auto simp: GetIndex1_def SetIndex1_def)

lemma switch_body_bytes:
  assumes "length (fByteVal c) = 4" "p \<in> {1, 2}" "GetIndex1 c p \<noteq> 0"
  shows "GetIndex1 (switch_body p c) 0 = SwapIndex1 c p"
    and "GetIndex1 (switch_body p c) p = 0"
    and "GetIndex1 (switch_body p c) 3 = GetIndex1 c 3 + 1"
    and "q \<in> {1, 2} \<Longrightarrow> q \<noteq> p \<Longrightarrow> GetIndex1 (switch_body p c) q = GetIndex1 c q"
    and "length (fByteVal (switch_body p c)) = 4"
  using assms by (auto simp: switch_body_def GetIndex1_def SetIndex1_def IncIndex1_def)

lemma switch_body_idle: "GetIndex1 c p = 0 \<Longrightarrow> switch_body p c = c"
  by (simp add: switch_body_def)

lemma TrySwitchState_result_arr_eq:
  "p < 4 \<Longrightarrow> TrySwitchState_result_arr p s =
     Inr (s\<lparr>fCounter_arr := switch_body p (fCounter_arr s)\<rparr>,
          unat (GetIndex1 (switch_body p (fCounter_arr s)) 0),
          GetIndex1 (fCounter_arr s) p \<noteq> 0)"
  by (simp add: TrySwitchState_result_arr_def cas_loop_eq)

lemma TrySwitchState_arr_eq:
  "p < 4 \<Longrightarrow> TrySwitchState_arr p s =
     Inr (s\<lparr>fCounter_arr := switch_body p (fCounter_arr s)\<rparr>,
          unat (GetIndex1 (switch_body p (fCounter_arr s)) 0))"
  by (simp add: TrySwitchState_arr_def cas_loop_eq)

lemma TrySwitchState_arr_written:
  assumes "length (fByteVal (fCounter_arr s)) = 4" "p \<in> {1, 2}" "GetIndex1 (fCounter_arr s) p \<noteq> 0"
  shows "\<exists>s1. TrySwitchState_arr p s = Inr (s1, if ReadCurrentState_arr s = p then 0 else p)
           \<and> ReadCurrentState_arr s1 = (if ReadCurrentState_arr s = p then 0 else p)"
proof -
  have p4: "p < 4" using assms(2) by auto
  note b = switch_body_bytes [OF assms]
  show ?thesis
    by (simp add: TrySwitchState_arr_eq [OF p4] ReadCurrentState_arr_def b(1)
        SwapIndex1_toggle [OF assms(2)])
qed

text \<open>The start of a write on a well-formed state never faults.\<close>

lemma WriteNextStateStartAux_arr_eq:
  assumes "wf_arr s" "p \<in> {1, 2}"
  shows "WriteNextStateStartAux_arr p s =
     Inr (if GetIndex1 (fCounter_arr s) p = 0
          then s\<lparr>fCounter_arr := SetIndex1 p 0 (fCounter_arr s),
                 fState_arr := (fState_arr s)
                   [(if ReadCurrentState_arr s = p then 0 else p) := fState_arr s ! ReadCurrentState_arr s]\<rparr>
          else s\<lparr>fCounter_arr := SetIndex1 p 0 (fCounter_arr s)\<rparr>,
          if ReadCurrentState_arr s = p then 0 else p,
          GetIndex1 (fCounter_arr s) p \<noteq> 0)"
  using assms
  by (auto simp: WriteNextStateStartAux_arr_def cas_loop_eq wf_arr_def ReadCurrentState_arr_def
      SwapIndex1_toggle)

lemma WriteNextStateStopAux_arr_eq:
  "p < 4 \<Longrightarrow> WriteNextStateStopAux_arr p s = Inr (s\<lparr>fCounter_arr := SetIndex1 p 1 (fCounter_arr s)\<rparr>)"
  by (simp add: WriteNextStateStopAux_arr_def cas_loop_eq)

lemma wf_arr_start:
  assumes "wf_arr s" "p \<in> {1, 2}" "WriteNextStateStartAux_arr p s = Inr (s1, i, r)"
  shows "wf_arr s1"
  using assms(3) assms(1,2) unfolding WriteNextStateStartAux_arr_eq [OF assms(1,2)]
  by (auto simp: wf_arr_def SetIndex1_bytes split: if_splits)

section \<open>C1: the copy at the start of a write\<close>

text \<open>
  C1 says that from every reachable state with \<open>cur = next\<close> the start of a write copies
  the current slot \<open>fState[cur & 1]\<close> into the pending slot, so that a writer that changes
  one field publishes the current payload on the other fields. The code takes the source
  of the copy at \<open>fState[cur]\<close>, with the whole index. Two rounds of write, publish and
  switch from the constructed state lead to \<open>cur = next = 2\<close> with \<open>(5, 9)\<close> in the
  current slot 0. There the next \<open>WriteNextStateStart\<close> fills the pending slot 1 with
  \<open>g\<close>, what it read behind the two slots, and not with the current payload; a writer
  that then sets the second field to 99 publishes \<open>(fst g, 99)\<close>, and that is what the
  reader gets after its switch, not \<open>(5, 99)\<close>.
\<close>

theorem C1_copy_source_behind_the_slots:
  "run [BeginWrite g, Store (\<lambda>_. (5, 9)), EndWrite, Switch,
        BeginWrite g, Store (\<lambda>_. (5, 9)), EndWrite, Switch]
       (start (JackAtomicState_init (5::nat, 9::nat) (0, 0)))
     = Inr \<lparr>exch = \<lparr>fState = [(5, 9), (5, 9)], fCounter = \<lparr>fShortVal1 = 2, fShortVal2 = 2\<rparr>,
                      fCallWriteCounter = 0\<rparr>,
             ptrs = [], switched = [True, True]\<rparr>
   \<and> ReadCurrentState \<lparr>fState = [(5::nat, 9::nat), (5, 9)],
                        fCounter = \<lparr>fShortVal1 = 2, fShortVal2 = 2\<rparr>, fCallWriteCounter = 0\<rparr>
     = 0
   \<and> WriteNextStateStart g \<lparr>fState = [(5::nat, 9::nat), (5, 9)],
                             fCounter = \<lparr>fShortVal1 = 2, fShortVal2 = 2\<rparr>, fCallWriteCounter = 0\<rparr>
     = Inr (\<lparr>fState = [(5, 9), g], fCounter = \<lparr>fShortVal1 = 2, fShortVal2 = 2\<rparr>,
             fCallWriteCounter = 1\<rparr>, 1)
   \<and> run [BeginWrite g, Store (\<lambda>p. (fst p, 99)), EndWrite, Switch]
       (start \<lparr>fState = [(5::nat, 9::nat), (5, 9)],
                fCounter = \<lparr>fShortVal1 = 2, fShortVal2 = 2\<rparr>, fCallWriteCounter = 0\<rparr>)
     = Inr \<lparr>exch = \<lparr>fState = [(5, 9), (fst g, 99)],
                      fCounter = \<lparr>fShortVal1 = 3, fShortVal2 = 3\<rparr>, fCallWriteCounter = 0\<rparr>,
             ptrs = [], switched = [True]\<rparr>
   \<and> load \<lparr>fState = [(5::nat, 9::nat), (fst g, 99)],
            fCounter = \<lparr>fShortVal1 = 3, fShortVal2 = 3\<rparr>, fCallWriteCounter = 0\<rparr>
          (ReadCurrentState \<lparr>fState = [(5::nat, 9::nat), (fst g, 99)],
             fCounter = \<lparr>fShortVal1 = 3, fShortVal2 = 3\<rparr>, fCallWriteCounter = 0\<rparr>)
     = Inr (fst g, 99)"
  by (simp add: single_defs)

text \<open>
  The same holds at every idle state whose index has left the slots: the pending slot
  the call returns holds what was read behind the slots.
\<close>

lemma copy_on_first_write_behind_the_slots:
  fixes s :: "'a JackAtomicState"
  assumes "length (fState s) = 2" and "fCallWriteCounter s = 0"
    and "CurIndex (fCounter s) = NextIndex (fCounter s)" and "2 \<le> unat (CurIndex (fCounter s))"
  shows "\<exists>s1 i. WriteNextStateStart g s = Inr (s1, i)
           \<and> i = unat (NextArrayIndex (fCounter s))
           \<and> i \<noteq> ReadCurrentState s
           \<and> fState s1 ! i = g
           \<and> fState s1 ! ReadCurrentState s = fState s ! ReadCurrentState s
           \<and> fCounter s1 = fCounter s"
proof -
  let ?k = "CurIndex (fCounter s)"
  have lt: "unat ((?k + 1) AND 1) < 2" by (rule slot_lt_2)
  have par: "unat ((?k + 1) AND 1) \<noteq> unat (?k AND 1)" by (rule unat_slot_parity)
  show ?thesis
    using assms lt par
    by (simp add: WriteNextStateStart_def WriteNextStateStartAux_eq ReadCurrentState_def
        CurArrayIndex_def NextArrayIndex_def)
qed

text \<open>
  While \<open>cur\<close> is 0 or 1 the whole index is the slot, and the start of a write does what
  C1 says: it returns the pending slot, which is not the current one, holding a copy of
  the current payload, and leaves the current slot and the counter as they were. Scenario
  S6 runs from the constructed state, so there the reader does see \<open>(5, 99)\<close>.
\<close>

lemma copy_on_first_write_in_bounds:
  fixes s :: "'a JackAtomicState"
  assumes "length (fState s) = 2" and "fCallWriteCounter s = 0"
    and "CurIndex (fCounter s) = NextIndex (fCounter s)" and "unat (CurIndex (fCounter s)) < 2"
  shows "\<exists>s1 i. WriteNextStateStart g s = Inr (s1, i)
           \<and> i = unat (NextArrayIndex (fCounter s))
           \<and> i \<noteq> ReadCurrentState s
           \<and> fState s1 ! i = fState s ! ReadCurrentState s
           \<and> fState s1 ! ReadCurrentState s = fState s ! ReadCurrentState s
           \<and> fCounter s1 = fCounter s"
proof -
  let ?k = "CurIndex (fCounter s)"
  have lt: "unat ((?k + 1) AND 1) < 2" by (rule slot_lt_2)
  have par: "unat ((?k + 1) AND 1) \<noteq> unat (?k AND 1)" by (rule unat_slot_parity)
  have small: "unat (?k AND 1) = unat ?k" by (rule small_index [OF assms(4)])
  show ?thesis
    using assms lt par small
    by (simp add: WriteNextStateStart_def WriteNextStateStartAux_eq ReadCurrentState_def
        CurArrayIndex_def NextArrayIndex_def)
qed

lemma S6_copy_on_first_write:
  "run [BeginWrite g, Store (\<lambda>p. (fst p, 99)), EndWrite, Switch]
       (start (JackAtomicState_init (5::nat, 9::nat) (0, 0)))
     = Inr \<lparr>exch = \<lparr>fState = [(5, 9), (5, 99)], fCounter = \<lparr>fShortVal1 = 1, fShortVal2 = 1\<rparr>,
                      fCallWriteCounter = 0\<rparr>,
             ptrs = [], switched = [True]\<rparr>
   \<and> load \<lparr>fState = [(5::nat, 9::nat), (5, 99)], fCounter = \<lparr>fShortVal1 = 1, fShortVal2 = 1\<rparr>,
            fCallWriteCounter = 0\<rparr> 1
     = Inr (5, 99)"
  by (simp add: single_defs)

section \<open>C2: what a switch of the array exchanger does to the counter\<close>

text \<open>
  C2 as stated says that \<open>try_switch(p)\<close> on a written pending state sets \<open>byte[0]\<close>
  to \<open>p\<close>. It does so only when the current slot is not \<open>p\<close> already. After one
  write, switch and second write of pending state 1 the counter is \<open>[1, 1, 0, 1]\<close>:
  \<open>byte[1]\<close> is set and the current slot is 1, and \<open>TrySwitchState(1)\<close> makes the
  current slot 0, not 1.
\<close>

theorem C2_switch_sets_current_to_p_counterexample:
  "run_arr [BeginWrite_arr 1, EndWrite_arr 1, Switch_arr 1, BeginWrite_arr 1, EndWrite_arr 1]
       (start_arr (JackAtomicArrayState_init (0::nat) 0 0))
     = Inr \<lparr>exch_arr = \<lparr>fState_arr = [0, 0, 0], fCounter_arr = \<lparr>fByteVal = [1, 1, 0, 1]\<rparr>\<rparr>,
             held = [], was_published = [False, False], switched_arr = [True]\<rparr>
   \<and> TrySwitchState_result_arr 1
       \<lparr>fState_arr = [0, 0, 0::nat], fCounter_arr = \<lparr>fByteVal = [1, 1, 0, 1]\<rparr>\<rparr>
     = Inr (\<lparr>fState_arr = [0, 0, 0], fCounter_arr = \<lparr>fByteVal = [0, 0, 0, 2]\<rparr>\<rparr>, 0, True)
   \<and> GetIndex1 \<lparr>fByteVal = [0, 0, 0, 2]\<rparr> 0 \<noteq> 1"
  by (simp add: array_defs)

text \<open>
  C2, amended: for every array exchanger state with four counter bytes and every pending
  state \<open>p\<close> of 1 and 2, when \<open>byte[p]\<close> is not 0 both \<open>TrySwitchState\<close> overloads
  set \<open>byte[0]\<close> to 0 if the current slot was \<open>p\<close> and to \<open>p\<close> otherwise, clear
  \<open>byte[p]\<close>, add 1 to \<open>byte[3]\<close> modulo 256, leave the other pending byte and the slots
  as they were, return the new current slot and report a switch; when \<open>byte[p]\<close> is 0 they
  change nothing, return the current slot and report no switch.
\<close>

theorem C2_switch_toggles_current:
  fixes s :: "'a JackAtomicArrayState"
  assumes "length (fByteVal (fCounter_arr s)) = 4" and "p \<in> {1, 2}"
  shows "(GetIndex1 (fCounter_arr s) p \<noteq> 0 \<longrightarrow>
           (\<exists>s1. TrySwitchState_result_arr p s = Inr (s1, ReadCurrentState_arr s1, True)
              \<and> TrySwitchState_arr p s = Inr (s1, ReadCurrentState_arr s1)
              \<and> ReadCurrentState_arr s1 = (if ReadCurrentState_arr s = p then 0 else p)
              \<and> GetIndex1 (fCounter_arr s1) p = 0
              \<and> GetIndex1 (fCounter_arr s1) 3 = GetIndex1 (fCounter_arr s) 3 + 1
              \<and> (\<forall>q\<in>{1, 2}. q \<noteq> p \<longrightarrow> GetIndex1 (fCounter_arr s1) q = GetIndex1 (fCounter_arr s) q)
              \<and> fState_arr s1 = fState_arr s))
       \<and> (GetIndex1 (fCounter_arr s) p = 0 \<longrightarrow>
           TrySwitchState_result_arr p s = Inr (s, ReadCurrentState_arr s, False)
           \<and> TrySwitchState_arr p s = Inr (s, ReadCurrentState_arr s))"
proof (intro conjI impI)
  have p4: "p < 4" using assms(2) by auto
  {
    assume nz: "GetIndex1 (fCounter_arr s) p \<noteq> 0"
    let ?s1 = "s\<lparr>fCounter_arr := switch_body p (fCounter_arr s)\<rparr>"
    note b = switch_body_bytes [OF assms(1) assms(2) nz]
    have "TrySwitchState_result_arr p s = Inr (?s1, ReadCurrentState_arr ?s1, True)"
      using nz by (simp add: TrySwitchState_result_arr_eq [OF p4] ReadCurrentState_arr_def)
    moreover have "TrySwitchState_arr p s = Inr (?s1, ReadCurrentState_arr ?s1)"
      by (simp add: TrySwitchState_arr_eq [OF p4] ReadCurrentState_arr_def)
    moreover have "ReadCurrentState_arr ?s1 = (if ReadCurrentState_arr s = p then 0 else p)"
      by (simp add: ReadCurrentState_arr_def b(1) SwapIndex1_toggle [OF assms(2)])
    moreover have "GetIndex1 (fCounter_arr ?s1) p = 0" by (simp add: b(2))
    moreover have "GetIndex1 (fCounter_arr ?s1) 3 = GetIndex1 (fCounter_arr s) 3 + 1"
      by (simp add: b(3))
    moreover have "\<forall>q\<in>{1, 2}. q \<noteq> p \<longrightarrow> GetIndex1 (fCounter_arr ?s1) q = GetIndex1 (fCounter_arr s) q"
      using b(4) by simp
    moreover have "fState_arr ?s1 = fState_arr s" by simp
    ultimately show "\<exists>s1. TrySwitchState_result_arr p s = Inr (s1, ReadCurrentState_arr s1, True)
              \<and> TrySwitchState_arr p s = Inr (s1, ReadCurrentState_arr s1)
              \<and> ReadCurrentState_arr s1 = (if ReadCurrentState_arr s = p then 0 else p)
              \<and> GetIndex1 (fCounter_arr s1) p = 0
              \<and> GetIndex1 (fCounter_arr s1) 3 = GetIndex1 (fCounter_arr s) 3 + 1
              \<and> (\<forall>q\<in>{1, 2}. q \<noteq> p \<longrightarrow> GetIndex1 (fCounter_arr s1) q = GetIndex1 (fCounter_arr s) q)
              \<and> fState_arr s1 = fState_arr s"
      by blast
  }
  {
    assume z: "GetIndex1 (fCounter_arr s) p = 0"
    show "TrySwitchState_result_arr p s = Inr (s, ReadCurrentState_arr s, False)"
      using z by (simp add: TrySwitchState_result_arr_eq [OF p4] switch_body_idle
          ReadCurrentState_arr_def)
    show "TrySwitchState_arr p s = Inr (s, ReadCurrentState_arr s)"
      using z by (simp add: TrySwitchState_arr_eq [OF p4] switch_body_idle
          ReadCurrentState_arr_def)
  }
qed

theorem C2_switch_toggles_current_witness:
  "length (fByteVal (fCounter_arr \<lparr>fState_arr = [0, 7, 9::nat], fCounter_arr = \<lparr>fByteVal = [0, 1, 0, 255]\<rparr>\<rparr>)) = 4
   \<and> (1::nat) \<in> {1, 2}
   \<and> GetIndex1 \<lparr>fByteVal = [0, 1, 0, 255]\<rparr> 1 \<noteq> 0
   \<and> TrySwitchState_result_arr 1 \<lparr>fState_arr = [0, 7, 9::nat], fCounter_arr = \<lparr>fByteVal = [0, 1, 0, 255]\<rparr>\<rparr>
     = Inr (\<lparr>fState_arr = [0, 7, 9], fCounter_arr = \<lparr>fByteVal = [1, 0, 0, 0]\<rparr>\<rparr>, 1, True)
   \<and> GetIndex1 \<lparr>fByteVal = [1, 0, 0, 0]\<rparr> 2 = 0
   \<and> TrySwitchState_result_arr 2 \<lparr>fState_arr = [0, 7, 9::nat], fCounter_arr = \<lparr>fByteVal = [1, 0, 0, 0]\<rparr>\<rparr>
     = Inr (\<lparr>fState_arr = [0, 7, 9], fCounter_arr = \<lparr>fByteVal = [1, 0, 0, 0]\<rparr>\<rparr>, 1, False)"
proof -
  let ?s = "\<lparr>fState_arr = [0, 7, 9::nat], fCounter_arr = \<lparr>fByteVal = [0, 1, 0, 255]\<rparr>\<rparr>"
  let ?t = "\<lparr>fState_arr = [0, 7, 9::nat], fCounter_arr = \<lparr>fByteVal = [1, 0, 0, 0]\<rparr>\<rparr>"
  have len: "length (fByteVal (fCounter_arr ?s)) = 4" "length (fByteVal (fCounter_arr ?t)) = 4"
    by simp_all
  have nz: "GetIndex1 (fCounter_arr ?s) 1 \<noteq> 0" and z: "GetIndex1 (fCounter_arr ?t) 2 = 0"
    by (simp_all add: GetIndex1_def)
  have one: "(1::nat) \<in> {1, 2}" and two: "(2::nat) \<in> {1, 2}" by simp_all
  have direct: "TrySwitchState_result_arr 1 ?s = Inr (?t, 1, True)"
    by (simp add: array_defs)
  from C2_switch_toggles_current [OF len(2) two] z
  have b: "TrySwitchState_result_arr 2 ?t = Inr (?t, ReadCurrentState_arr ?t, False)"
    by blast
  show ?thesis
    using C2_switch_toggles_current [OF len(1) one] direct b nz z
    by (simp add: ReadCurrentState_arr_def GetIndex1_def)
qed

section \<open>C3: one rule selects the slot of a write and of a switch\<close>

text \<open>
  C3 says that the slot \<open>try_switch(p)\<close> promotes to current is exactly the slot the
  preceding \<open>begin_write(p)\<close> returned; it is what the header asks of
  \<open>TrySwitchState\<close>: the pending state becomes the current one. The code gives both
  calls the rule of \<open>SwapIndex1\<close> on the current slot each of them finds, and slot 0
  belongs to both pending states, so a switch of the other pending state in between
  changes the outcome. With current slot 1 the second write of pending state 1 is handed
  slot 0 and stores 5 there; a write and switch of pending state 2 make slot 2 current;
  the switch of pending state 1 then reports success and promotes slot 1, which holds 0,
  and slot 0 with the 5 is not the current slot.
\<close>

theorem C3_switch_promotes_another_slot:
  "run_arr [BeginWrite_arr 1, EndWrite_arr 1, Switch_arr 1, BeginWrite_arr 1]
       (start_arr (JackAtomicArrayState_init (0::nat) 0 0))
     = Inr \<lparr>exch_arr = \<lparr>fState_arr = [0, 0, 0], fCounter_arr = \<lparr>fByteVal = [1, 0, 0, 1]\<rparr>\<rparr>,
             held = [(1, 0)], was_published = [False, False], switched_arr = [True]\<rparr>
   \<and> run_arr [BeginWrite_arr 1, EndWrite_arr 1, Switch_arr 1, BeginWrite_arr 1,
              Store_arr 1 (\<lambda>_. 5), EndWrite_arr 1,
              BeginWrite_arr 2, EndWrite_arr 2, Switch_arr 2, Switch_arr 1]
       (start_arr (JackAtomicArrayState_init (0::nat) 0 0))
     = Inr \<lparr>exch_arr = \<lparr>fState_arr = [5, 0, 0], fCounter_arr = \<lparr>fByteVal = [1, 0, 0, 3]\<rparr>\<rparr>,
             held = [], was_published = [False, False, False],
             switched_arr = [True, True, True]\<rparr>
   \<and> ReadCurrentState_arr \<lparr>fState_arr = [5, 0, 0::nat], fCounter_arr = \<lparr>fByteVal = [1, 0, 0, 3]\<rparr>\<rparr>
     = 1
   \<and> load_arr \<lparr>fState_arr = [5, 0, 0::nat], fCounter_arr = \<lparr>fByteVal = [1, 0, 0, 3]\<rparr>\<rparr>
        (ReadCurrentState_arr
           \<lparr>fState_arr = [5, 0, 0::nat], fCounter_arr = \<lparr>fByteVal = [1, 0, 0, 3]\<rparr>\<rparr>)
     = Inr 0"
  by (simp add: array_defs)

text \<open>
  The rest of C3 holds of the code. For a pending state \<open>p\<close> of 1 and 2,
  \<open>begin_write(p)\<close> on a well-formed state returns slot 0 if the current slot is \<open>p\<close>
  and slot \<open>p\<close> otherwise, and \<open>try_switch(p)\<close> on a state whose \<open>byte[p]\<close> is set
  makes current the slot the same rule gives for the current slot it finds. So the slot
  promoted is the slot the write was handed as long as the current slot at the switch is
  the one the write started from, which is the case when pending state \<open>p\<close> is the only
  one in use; and when the current slot at the switch is \<open>p\<close>, the new current slot
  is 0.
\<close>

lemma toggle_rule_of_write_and_switch:
  fixes s t :: "'a JackAtomicArrayState"
  assumes "wf_arr s" and "p \<in> {1, 2}"
    and "length (fByteVal (fCounter_arr t)) = 4" and "GetIndex1 (fCounter_arr t) p \<noteq> 0"
  shows "(\<exists>s1. WriteNextStateStart_arr p s = Inr (s1, if ReadCurrentState_arr s = p then 0 else p))
       \<and> (\<exists>t1. TrySwitchState_arr p t = Inr (t1, if ReadCurrentState_arr t = p then 0 else p)
              \<and> ReadCurrentState_arr t1 = (if ReadCurrentState_arr t = p then 0 else p))
       \<and> (ReadCurrentState_arr t = ReadCurrentState_arr s \<longrightarrow>
            (\<exists>s1 t1 i. WriteNextStateStart_arr p s = Inr (s1, i)
               \<and> TrySwitchState_arr p t = Inr (t1, i) \<and> ReadCurrentState_arr t1 = i))
       \<and> (ReadCurrentState_arr t = p \<longrightarrow>
            (\<exists>t1. TrySwitchState_arr p t = Inr (t1, 0) \<and> ReadCurrentState_arr t1 = 0))"
proof -
  have a: "\<exists>s1. WriteNextStateStart_arr p s = Inr (s1, if ReadCurrentState_arr s = p then 0 else p)"
    by (simp add: WriteNextStateStart_arr_def WriteNextStateStartAux_arr_eq [OF assms(1,2)] bind_res_def)
  have b: "\<exists>t1. TrySwitchState_arr p t = Inr (t1, if ReadCurrentState_arr t = p then 0 else p)
              \<and> ReadCurrentState_arr t1 = (if ReadCurrentState_arr t = p then 0 else p)"
    by (rule TrySwitchState_arr_written [OF assms(3) assms(2) assms(4)])
  have c: "ReadCurrentState_arr t = ReadCurrentState_arr s \<longrightarrow>
            (\<exists>s1 t1 i. WriteNextStateStart_arr p s = Inr (s1, i)
               \<and> TrySwitchState_arr p t = Inr (t1, i) \<and> ReadCurrentState_arr t1 = i)"
    using a b by auto
  have d: "ReadCurrentState_arr t = p \<longrightarrow>
            (\<exists>t1. TrySwitchState_arr p t = Inr (t1, 0) \<and> ReadCurrentState_arr t1 = 0)"
    using b by auto
  show ?thesis using a b c d by blast
qed

text \<open>
  For example the second write of pending state 1 from current slot 1, and the switch that
  follows its end.
\<close>

lemma toggle_rule_of_write_and_switch_example:
  "wf_arr \<lparr>fState_arr = [0, 7, 0::nat], fCounter_arr = \<lparr>fByteVal = [1, 0, 0, 1]\<rparr>\<rparr>
   \<and> (1::nat) \<in> {1, 2}
   \<and> length (fByteVal (fCounter_arr \<lparr>fState_arr = [8, 7, 0::nat], fCounter_arr = \<lparr>fByteVal = [1, 1, 0, 1]\<rparr>\<rparr>)) = 4
   \<and> GetIndex1 \<lparr>fByteVal = [1, 1, 0, 1]\<rparr> 1 \<noteq> 0
   \<and> ReadCurrentState_arr \<lparr>fState_arr = [8, 7, 0::nat], fCounter_arr = \<lparr>fByteVal = [1, 1, 0, 1]\<rparr>\<rparr>
     = ReadCurrentState_arr \<lparr>fState_arr = [0, 7, 0::nat], fCounter_arr = \<lparr>fByteVal = [1, 0, 0, 1]\<rparr>\<rparr>
   \<and> (\<exists>s1. WriteNextStateStart_arr 1
          \<lparr>fState_arr = [0, 7, 0::nat], fCounter_arr = \<lparr>fByteVal = [1, 0, 0, 1]\<rparr>\<rparr> = Inr (s1, 0))
   \<and> (\<exists>t1. TrySwitchState_arr 1
          \<lparr>fState_arr = [8, 7, 0::nat], fCounter_arr = \<lparr>fByteVal = [1, 1, 0, 1]\<rparr>\<rparr> = Inr (t1, 0)
          \<and> ReadCurrentState_arr t1 = 0)"
  using toggle_rule_of_write_and_switch [of "\<lparr>fState_arr = [0, 7, 0::nat], fCounter_arr = \<lparr>fByteVal = [1, 0, 0, 1]\<rparr>\<rparr>"
      1 "\<lparr>fState_arr = [8, 7, 0::nat], fCounter_arr = \<lparr>fByteVal = [1, 1, 0, 1]\<rparr>\<rparr>"]
  by (simp add: wf_arr_def GetIndex1_def ReadCurrentState_arr_def)

section \<open>C4: a second write supersedes the first\<close>

text \<open>
  C4: from every state of the two-slot exchanger with no write in progress, whatever its
  counter and its slots hold, and whatever the two copies read, two complete writes of
  \<open>v1\<close> and \<open>v2\<close> followed by one switch run to their end; the switch reports
  \<open>true\<close>, the current slot then holds \<open>v2\<close>, and no change is pending. The reader's
  slot and its contents are the same before the sequence and after each of the writer's
  six calls, so \<open>v1\<close> is never what the reader sees. In scenario S2 the values are 10 and
  20 from the constructed state, and the reader ends with 20.
\<close>

theorem C4_supersession:
  fixes s :: "'a JackAtomicState"
  assumes "length (fState s) = 2" and "fCallWriteCounter s = 0"
  shows "(\<exists>c. run [BeginWrite g1, Store (\<lambda>_. v1), EndWrite,
                   BeginWrite g2, Store (\<lambda>_. v2), EndWrite, Switch] (start s) = Inr c
            \<and> switched c = [True]
            \<and> load (exch c) (ReadCurrentState (exch c)) = Inr v2
            \<and> \<not> IsPendingChange (exch c))
       \<and> (\<forall>xs \<in> {[], [BeginWrite g1], [BeginWrite g1, Store (\<lambda>_. v1)],
                   [BeginWrite g1, Store (\<lambda>_. v1), EndWrite],
                   [BeginWrite g1, Store (\<lambda>_. v1), EndWrite, BeginWrite g2],
                   [BeginWrite g1, Store (\<lambda>_. v1), EndWrite, BeginWrite g2, Store (\<lambda>_. v2)],
                   [BeginWrite g1, Store (\<lambda>_. v1), EndWrite, BeginWrite g2, Store (\<lambda>_. v2),
                    EndWrite]}.
            \<exists>c. run xs (start s) = Inr c
              \<and> ReadCurrentState (exch c) = ReadCurrentState s
              \<and> load (exch c) (ReadCurrentState (exch c)) = load s (ReadCurrentState s))"
proof -
  let ?k = "CurIndex (fCounter s)"
  have lt: "unat ((?k + 1) AND 1) < 2" by (rule slot_lt_2)
  have ne: "?k \<noteq> ?k + 1" by simp
  have par: "unat ((?k + 1) AND 1) \<noteq> unat (?k AND 1)" by (rule unat_slot_parity)
  have a: "\<exists>c. run [BeginWrite g1, Store (\<lambda>_. v1), EndWrite,
                    BeginWrite g2, Store (\<lambda>_. v2), EndWrite, Switch] (start s) = Inr c
            \<and> switched c = [True]
            \<and> load (exch c) (ReadCurrentState (exch c)) = Inr v2
            \<and> \<not> IsPendingChange (exch c)"
    using assms lt ne
    by (auto simp: single_defs Let_def)
  have b: "\<forall>xs \<in> {[], [BeginWrite g1], [BeginWrite g1, Store (\<lambda>_. v1)],
                   [BeginWrite g1, Store (\<lambda>_. v1), EndWrite],
                   [BeginWrite g1, Store (\<lambda>_. v1), EndWrite, BeginWrite g2],
                   [BeginWrite g1, Store (\<lambda>_. v1), EndWrite, BeginWrite g2, Store (\<lambda>_. v2)],
                   [BeginWrite g1, Store (\<lambda>_. v1), EndWrite, BeginWrite g2, Store (\<lambda>_. v2),
                    EndWrite]}.
            \<exists>c. run xs (start s) = Inr c
              \<and> ReadCurrentState (exch c) = ReadCurrentState s
              \<and> load (exch c) (ReadCurrentState (exch c)) = load s (ReadCurrentState s)"
    unfolding load_current
    using assms lt ne par
    by (auto simp: single_defs Let_def)
  from a b show ?thesis by (rule conjI)
qed

text \<open>
  The theorem at two states: the constructed one of scenario S2, and the state after two
  earlier rounds, where \<open>cur = next = 2\<close> and the first copy of the sequence reads
  behind the slots (here 7).
\<close>

theorem C4_supersession_witness:
  "run [BeginWrite 0, Store (\<lambda>_. 10), EndWrite, BeginWrite 0, Store (\<lambda>_. 20), EndWrite, Switch]
       (start (JackAtomicState_init (0::nat) 0))
     = Inr \<lparr>exch = \<lparr>fState = [0, 20], fCounter = \<lparr>fShortVal1 = 1, fShortVal2 = 1\<rparr>,
                      fCallWriteCounter = 0\<rparr>,
             ptrs = [], switched = [True]\<rparr>
   \<and> run [BeginWrite 7, Store (\<lambda>_. 10), EndWrite, BeginWrite 7, Store (\<lambda>_. 20), EndWrite, Switch]
       (start \<lparr>fState = [43, 42::nat], fCounter = \<lparr>fShortVal1 = 2, fShortVal2 = 2\<rparr>,
                fCallWriteCounter = 0\<rparr>)
     = Inr \<lparr>exch = \<lparr>fState = [43, 20], fCounter = \<lparr>fShortVal1 = 3, fShortVal2 = 3\<rparr>,
                      fCallWriteCounter = 0\<rparr>,
             ptrs = [], switched = [True]\<rparr>
   \<and> (\<exists>c. run [BeginWrite 7, Store (\<lambda>_. 10), EndWrite,
                BeginWrite 7, Store (\<lambda>_. 20), EndWrite, Switch]
            (start \<lparr>fState = [43, 42::nat], fCounter = \<lparr>fShortVal1 = 2, fShortVal2 = 2\<rparr>,
                     fCallWriteCounter = 0\<rparr>) = Inr c
         \<and> switched c = [True]
         \<and> load (exch c) (ReadCurrentState (exch c)) = Inr 20
         \<and> \<not> IsPendingChange (exch c))"
proof -
  have direct:
    "run [BeginWrite 0, Store (\<lambda>_. 10), EndWrite, BeginWrite 0, Store (\<lambda>_. 20), EndWrite, Switch]
       (start (JackAtomicState_init (0::nat) 0))
     = Inr \<lparr>exch = \<lparr>fState = [0, 20], fCounter = \<lparr>fShortVal1 = 1, fShortVal2 = 1\<rparr>,
                      fCallWriteCounter = 0\<rparr>,
             ptrs = [], switched = [True]\<rparr>
   \<and> run [BeginWrite 7, Store (\<lambda>_. 10), EndWrite, BeginWrite 7, Store (\<lambda>_. 20), EndWrite, Switch]
       (start \<lparr>fState = [43, 42::nat], fCounter = \<lparr>fShortVal1 = 2, fShortVal2 = 2\<rparr>,
                fCallWriteCounter = 0\<rparr>)
     = Inr \<lparr>exch = \<lparr>fState = [43, 20], fCounter = \<lparr>fShortVal1 = 3, fShortVal2 = 3\<rparr>,
                      fCallWriteCounter = 0\<rparr>,
             ptrs = [], switched = [True]\<rparr>"
    by (simp add: single_defs)
  have hyps: "length (fState \<lparr>fState = [43, 42::nat],
                  fCounter = \<lparr>fShortVal1 = 2, fShortVal2 = 2\<rparr>, fCallWriteCounter = 0\<rparr>) = 2"
    "fCallWriteCounter \<lparr>fState = [43, 42::nat],
                  fCounter = \<lparr>fShortVal1 = 2, fShortVal2 = 2\<rparr>, fCallWriteCounter = 0\<rparr> = 0"
    by simp_all
  note t = C4_supersession [OF hyps, of 7 10 7 20]
  show ?thesis using direct t [THEN conjunct1] by blast
qed

section \<open>C5: nested write regions\<close>

text \<open>
  C5: every \<open>WriteNextStateStart\<close> returns (short of the largest value of the write
  counter), returns the pending slot of the counter, and has added one to the write
  counter. Inside a write region (\<open>fCallWriteCounter > 0\<close>) it changes nothing else, so it
  runs no compare-and-swap and leaves \<open>fCounter\<close> and the slots alone. An inner call
  that follows an outermost call, from any state and with or without a switch of the
  realtime thread in between, returns the slot the outermost call returned; and along
  every run of a disciplined writer a call inside a region returns the pointer the
  outermost call of that region returned. Every \<open>WriteNextStateStop\<close> subtracts one and
  changes \<open>fCounter\<close>, by adding one to \<open>next\<close>, exactly when the counter reaches 0.
  In scenario S3 the inner stop leaves the counter at \<open>cur = next = 0\<close>, the outer stop
  publishes, and the switch reads 8 with \<open>cur\<close> gone from 0 to 1.
\<close>

theorem C5_nested_write:
  fixes s :: "'a JackAtomicState" and c :: "'a config" and h h' :: nat
  shows "(0 < fCallWriteCounter s \<and> fCallWriteCounter s < 2147483647 \<longrightarrow>
            WriteNextStateStart g s
              = Inr (s\<lparr>fCallWriteCounter := fCallWriteCounter s + 1\<rparr>, unat (NextArrayIndex (fCounter s))))
       \<and> (fCallWriteCounter s \<noteq> 2147483647 \<longrightarrow>
            (\<exists>s1. WriteNextStateStart g s = Inr (s1, unat (NextArrayIndex (fCounter s)))
               \<and> fCallWriteCounter s1 = fCallWriteCounter s + 1))
       \<and> (fCallWriteCounter s = 0 \<longrightarrow>
            (\<exists>s1 i. WriteNextStateStart g s = Inr (s1, i)
               \<and> WriteNextStateStart g' s1 = Inr (s1\<lparr>fCallWriteCounter := 2\<rparr>, i)
               \<and> fst (TrySwitchState s1) = s1
               \<and> WriteNextStateStart g' (fst (TrySwitchState s1))
                   = Inr (s1\<lparr>fCallWriteCounter := 2\<rparr>, i)))
       \<and> (fCallWriteCounter s \<noteq> - 2147483648 \<longrightarrow>
            (\<exists>s1. WriteNextStateStop s = Inr s1
               \<and> fCallWriteCounter s1 = fCallWriteCounter s - 1
               \<and> fState s1 = fState s
               \<and> fCounter s1 = (if fCallWriteCounter s = 1
                                 then SetNextIndex (NextIndex (fCounter s) + 1) (fCounter s)
                                 else fCounter s)))
       \<and> (paired xs 0 \<and> run xs (start (JackAtomicState_init a b)) = Inr c
            \<and> ptrs c \<noteq> [] \<and> length (ptrs c) < 2147483647 \<longrightarrow>
            (\<exists>c1. step (BeginWrite g) c = Inr c1
               \<and> ptrs c1 = last (ptrs c) # ptrs c
               \<and> fCounter (exch c1) = fCounter (exch c)
               \<and> fState (exch c1) = fState (exch c)))
       \<and> run [BeginWrite h, Store (\<lambda>_. 7), BeginWrite h', Store (\<lambda>_. 8), EndWrite]
            (start (JackAtomicState_init (0::nat) 0))
          = Inr \<lparr>exch = \<lparr>fState = [0, 8], fCounter = \<lparr>fShortVal1 = 0, fShortVal2 = 0\<rparr>,
                           fCallWriteCounter = 1\<rparr>,
                  ptrs = [1], switched = []\<rparr>
       \<and> run [BeginWrite h, Store (\<lambda>_. 7), BeginWrite h', Store (\<lambda>_. 8), EndWrite, EndWrite]
            (start (JackAtomicState_init (0::nat) 0))
          = Inr \<lparr>exch = \<lparr>fState = [0, 8], fCounter = \<lparr>fShortVal1 = 0, fShortVal2 = 1\<rparr>,
                           fCallWriteCounter = 0\<rparr>,
                  ptrs = [], switched = []\<rparr>
       \<and> run [BeginWrite h, Store (\<lambda>_. 7), BeginWrite h', Store (\<lambda>_. 8), EndWrite, EndWrite,
               Switch]
            (start (JackAtomicState_init (0::nat) 0))
          = Inr \<lparr>exch = \<lparr>fState = [0, 8], fCounter = \<lparr>fShortVal1 = 1, fShortVal2 = 1\<rparr>,
                           fCallWriteCounter = 0\<rparr>,
                  ptrs = [], switched = [True]\<rparr>
       \<and> load \<lparr>fState = [0, 8::nat], fCounter = \<lparr>fShortVal1 = 1, fShortVal2 = 1\<rparr>,
                fCallWriteCounter = 0\<rparr>
            (ReadCurrentState \<lparr>fState = [0, 8::nat], fCounter = \<lparr>fShortVal1 = 1, fShortVal2 = 1\<rparr>,
                               fCallWriteCounter = 0\<rparr>)
          = Inr 8"
proof -
  have inner: "0 < fCallWriteCounter s \<and> fCallWriteCounter s < 2147483647 \<longrightarrow>
            WriteNextStateStart g s
              = Inr (s\<lparr>fCallWriteCounter := fCallWriteCounter s + 1\<rparr>, unat (NextArrayIndex (fCounter s)))"
    by (simp add: WriteNextStateStart_def)
  have incr: "fCallWriteCounter s \<noteq> 2147483647 \<longrightarrow>
            (\<exists>s1. WriteNextStateStart g s = Inr (s1, unat (NextArrayIndex (fCounter s)))
               \<and> fCallWriteCounter s1 = fCallWriteCounter s + 1)"
    by (simp add: WriteNextStateStart_def WriteNextStateStartAux_eq Let_def)
  have outer: "fCallWriteCounter s = 0 \<longrightarrow>
            (\<exists>s1 i. WriteNextStateStart g s = Inr (s1, i)
               \<and> WriteNextStateStart g' s1 = Inr (s1\<lparr>fCallWriteCounter := 2\<rparr>, i)
               \<and> fst (TrySwitchState s1) = s1
               \<and> WriteNextStateStart g' (fst (TrySwitchState s1))
                   = Inr (s1\<lparr>fCallWriteCounter := 2\<rparr>, i))"
    by (simp add: WriteNextStateStart_def WriteNextStateStartAux_eq TrySwitchState_eq Let_def
        counter_defs)
  have decr: "fCallWriteCounter s \<noteq> - 2147483648 \<longrightarrow>
            (\<exists>s1. WriteNextStateStop s = Inr s1
               \<and> fCallWriteCounter s1 = fCallWriteCounter s - 1
               \<and> fState s1 = fState s
               \<and> fCounter s1 = (if fCallWriteCounter s = 1
                                 then SetNextIndex (NextIndex (fCounter s) + 1) (fCounter s)
                                 else fCounter s))"
    by (simp add: WriteNextStateStop_def WriteNextStateStopAux_eq Let_def)
  have same: "paired xs 0 \<and> run xs (start (JackAtomicState_init a b)) = Inr c
            \<and> ptrs c \<noteq> [] \<and> length (ptrs c) < 2147483647 \<longrightarrow>
            (\<exists>c1. step (BeginWrite g) c = Inr c1
               \<and> ptrs c1 = last (ptrs c) # ptrs c
               \<and> fCounter (exch c1) = fCounter (exch c)
               \<and> fState (exch c1) = fState (exch c))"
  proof (intro impI, elim conjE)
    assume "paired xs 0" and "run xs (start (JackAtomicState_init a b)) = Inr c"
      and ne: "ptrs c \<noteq> []" and small: "length (ptrs c) < 2147483647"
    then have iv: "protocol_inv c" using reachable_inv [of xs a b c] by simp
    have d: "fCallWriteCounter (exch c) = int (length (ptrs c))"
      using iv by (simp add: protocol_inv_def)
    have all: "\<forall>i\<in>set (ptrs c). i = unat (NextArrayIndex (fCounter (exch c)))"
      using iv by (simp add: protocol_inv_def)
    have l: "last (ptrs c) = unat (NextArrayIndex (fCounter (exch c)))"
      using all ne last_in_set by blast
    have "step (BeginWrite g) c
        = Inr (c\<lparr>exch := (exch c)\<lparr>fCallWriteCounter := fCallWriteCounter (exch c) + 1\<rparr>,
                 ptrs := last (ptrs c) # ptrs c\<rparr>)"
      using d ne small l by (simp add: bind_res_def WriteNextStateStart_def)
    then show "\<exists>c1. step (BeginWrite g) c = Inr c1
               \<and> ptrs c1 = last (ptrs c) # ptrs c
               \<and> fCounter (exch c1) = fCounter (exch c)
               \<and> fState (exch c1) = fState (exch c)"
      by simp
  qed
  have s3a: "run [BeginWrite h, Store (\<lambda>_. 7), BeginWrite h', Store (\<lambda>_. 8), EndWrite]
            (start (JackAtomicState_init (0::nat) 0))
          = Inr \<lparr>exch = \<lparr>fState = [0, 8], fCounter = \<lparr>fShortVal1 = 0, fShortVal2 = 0\<rparr>,
                           fCallWriteCounter = 1\<rparr>,
                  ptrs = [1], switched = []\<rparr>"
    by (simp add: single_defs)
  have s3b: "run [BeginWrite h, Store (\<lambda>_. 7), BeginWrite h', Store (\<lambda>_. 8), EndWrite, EndWrite]
            (start (JackAtomicState_init (0::nat) 0))
          = Inr \<lparr>exch = \<lparr>fState = [0, 8], fCounter = \<lparr>fShortVal1 = 0, fShortVal2 = 1\<rparr>,
                           fCallWriteCounter = 0\<rparr>,
                  ptrs = [], switched = []\<rparr>"
    by (simp add: single_defs)
  have s3c: "run [BeginWrite h, Store (\<lambda>_. 7), BeginWrite h', Store (\<lambda>_. 8), EndWrite, EndWrite,
               Switch]
            (start (JackAtomicState_init (0::nat) 0))
          = Inr \<lparr>exch = \<lparr>fState = [0, 8], fCounter = \<lparr>fShortVal1 = 1, fShortVal2 = 1\<rparr>,
                           fCallWriteCounter = 0\<rparr>,
                  ptrs = [], switched = [True]\<rparr>"
    by (simp add: single_defs)
  have s3d: "load \<lparr>fState = [0, 8::nat], fCounter = \<lparr>fShortVal1 = 1, fShortVal2 = 1\<rparr>,
                fCallWriteCounter = 0\<rparr>
            (ReadCurrentState \<lparr>fState = [0, 8::nat], fCounter = \<lparr>fShortVal1 = 1, fShortVal2 = 1\<rparr>,
                               fCallWriteCounter = 0\<rparr>)
          = Inr 8"
    by (simp add: single_defs)
  show ?thesis
    using inner incr outer decr same s3a s3b s3c s3d by blast
qed

text \<open>
  The theorem at two states. In scenario S3 after the outer start and its store the write
  counter is 1 and the writer holds slot 1; the inner start returns slot 1 again. At the
  idle state with \<open>cur = next = 2\<close> the outermost start returns slot 1, filled with what
  its copy read (here 7), and the inner start returns slot 1 again.
\<close>

theorem C5_nested_write_witness:
  "0 < fCallWriteCounter \<lparr>fState = [0, 7::nat], fCounter = \<lparr>fShortVal1 = 0, fShortVal2 = 0\<rparr>,
                           fCallWriteCounter = 1\<rparr>
   \<and> paired [BeginWrite 0, Store (\<lambda>_. 7::nat)] 0
   \<and> run [BeginWrite 0, Store (\<lambda>_. 7)] (start (JackAtomicState_init (0::nat) 0))
      = Inr \<lparr>exch = \<lparr>fState = [0, 7], fCounter = \<lparr>fShortVal1 = 0, fShortVal2 = 0\<rparr>,
                       fCallWriteCounter = 1\<rparr>,
              ptrs = [1], switched = []\<rparr>
   \<and> WriteNextStateStart 0 \<lparr>fState = [0, 7::nat], fCounter = \<lparr>fShortVal1 = 0, fShortVal2 = 0\<rparr>,
                             fCallWriteCounter = 1\<rparr>
      = Inr (\<lparr>fState = [0, 7], fCounter = \<lparr>fShortVal1 = 0, fShortVal2 = 0\<rparr>,
              fCallWriteCounter = 2\<rparr>, 1)
   \<and> (\<exists>c1. step (BeginWrite 0)
              \<lparr>exch = \<lparr>fState = [0, 7::nat], fCounter = \<lparr>fShortVal1 = 0, fShortVal2 = 0\<rparr>,
                       fCallWriteCounter = 1\<rparr>,
               ptrs = [1], switched = []\<rparr> = Inr c1
          \<and> ptrs c1 = [1, 1])
   \<and> WriteNextStateStart 7 \<lparr>fState = [43, 42::nat], fCounter = \<lparr>fShortVal1 = 2, fShortVal2 = 2\<rparr>,
                             fCallWriteCounter = 0\<rparr>
      = Inr (\<lparr>fState = [43, 7], fCounter = \<lparr>fShortVal1 = 2, fShortVal2 = 2\<rparr>,
              fCallWriteCounter = 1\<rparr>, 1)
   \<and> WriteNextStateStart 0 \<lparr>fState = [43, 7::nat], fCounter = \<lparr>fShortVal1 = 2, fShortVal2 = 2\<rparr>,
                             fCallWriteCounter = 1\<rparr>
      = Inr (\<lparr>fState = [43, 7], fCounter = \<lparr>fShortVal1 = 2, fShortVal2 = 2\<rparr>,
              fCallWriteCounter = 2\<rparr>, 1)"
proof -
  let ?s = "\<lparr>fState = [0, 7::nat], fCounter = \<lparr>fShortVal1 = 0, fShortVal2 = 0\<rparr>,
             fCallWriteCounter = 1\<rparr>"
  let ?c = "\<lparr>exch = ?s, ptrs = [1], switched = []\<rparr>"
  let ?u = "\<lparr>fState = [43, 42::nat], fCounter = \<lparr>fShortVal1 = 2, fShortVal2 = 2\<rparr>,
             fCallWriteCounter = 0\<rparr>"
  have r: "run [BeginWrite 0, Store (\<lambda>_. 7)] (start (JackAtomicState_init (0::nat) 0)) = Inr ?c"
    by (simp add: single_defs)
  have p: "paired [BeginWrite 0, Store (\<lambda>_. 7::nat)] 0" by simp
  note t = C5_nested_write [of ?s 0 0 "[BeginWrite 0, Store (\<lambda>_. 7)]" 0 0 ?c 0 0]
  have a: "WriteNextStateStart 0 ?s
      = Inr (?s\<lparr>fCallWriteCounter := fCallWriteCounter ?s + 1\<rparr>, unat (NextArrayIndex (fCounter ?s)))"
    using t [THEN conjunct1] by simp
  have b: "\<exists>c1. step (BeginWrite 0) ?c = Inr c1 \<and> ptrs c1 = last (ptrs ?c) # ptrs ?c"
    using t p r by auto
  have direct: "WriteNextStateStart 7 ?u
      = Inr (\<lparr>fState = [43, 7], fCounter = \<lparr>fShortVal1 = 2, fShortVal2 = 2\<rparr>,
              fCallWriteCounter = 1\<rparr>, 1)
   \<and> WriteNextStateStart 0 \<lparr>fState = [43, 7::nat], fCounter = \<lparr>fShortVal1 = 2, fShortVal2 = 2\<rparr>,
                             fCallWriteCounter = 1\<rparr>
      = Inr (\<lparr>fState = [43, 7], fCounter = \<lparr>fShortVal1 = 2, fShortVal2 = 2\<rparr>,
              fCallWriteCounter = 2\<rparr>, 1)"
    by (simp add: single_defs)
  show ?thesis
    using a b r p direct by (simp add: counter_defs)
qed

section \<open>C6: two writers on pending states 1 and 2\<close>


text \<open>
  The same end for every order in which the calls of the two writers take effect.
\<close>

lemma S4_every_interleaving:
  "\<forall>xs \<in> set (interleavings [BeginWrite_arr 1, Store_arr 1 (\<lambda>_. 100), EndWrite_arr 1]
                             [BeginWrite_arr 2, Store_arr 2 (\<lambda>_. 200), EndWrite_arr 2]).
     run_arr (xs @ [Switch_arr 1, Switch_arr 2]) (start_arr (JackAtomicArrayState_init (0::nat) 0 0))
       = Inr \<lparr>exch_arr = \<lparr>fState_arr = [0, 100, 200], fCounter_arr = \<lparr>fByteVal = [2, 0, 0, 2]\<rparr>\<rparr>,
               held = [], was_published = [False, False], switched_arr = [True, True]\<rparr>"
  by (simp add: array_defs)

section \<open>C7: a second switch changes nothing\<close>

text \<open>
  C7: for every state of the two-slot exchanger, \<open>TrySwitchState\<close> reports
  \<open>cur \<noteq> next\<close> as it found them, and returns the slot that is current afterwards; a
  second call right after it returns the same state and the same slot and reports no
  switch. From a state with \<open>cur = next\<close> the call changes nothing and returns the
  current slot. The overload without the flag returns the same state and slot.
\<close>

theorem C7_try_switch_twice:
  fixes s :: "'a JackAtomicState"
  shows "(\<exists>s1 i. TrySwitchState_result s = (s1, i, CurIndex (fCounter s) \<noteq> NextIndex (fCounter s))
            \<and> TrySwitchState s = (s1, i)
            \<and> i = ReadCurrentState s1
            \<and> TrySwitchState_result s1 = (s1, i, False)
            \<and> TrySwitchState s1 = (s1, i))
       \<and> (CurIndex (fCounter s) = NextIndex (fCounter s) \<longrightarrow>
            TrySwitchState_result s = (s, ReadCurrentState s, False)
            \<and> TrySwitchState s = (s, ReadCurrentState s))"
proof -
  let ?s1 = "s\<lparr>fCounter := SetCurIndex (NextIndex (fCounter s)) (fCounter s)\<rparr>"
  have idle: "CurIndex (fCounter ?s1) = NextIndex (fCounter ?s1)"
    by (simp add: counter_defs)
  have slot: "unat (NextIndex (fCounter s) AND 1) = ReadCurrentState ?s1"
    by (simp add: ReadCurrentState_def counter_defs)
  have again: "TrySwitchState_result ?s1 = (?s1, ReadCurrentState ?s1, False)"
    unfolding TrySwitchState_result_eq [of ?s1] using idle
    by (simp add: ReadCurrentState_def counter_defs)
  have again': "TrySwitchState ?s1 = (?s1, ReadCurrentState ?s1)"
    unfolding TrySwitchState_eq [of ?s1] using idle
    by (simp add: ReadCurrentState_def counter_defs)
  have first_part: "\<exists>s1 i. TrySwitchState_result s = (s1, i, CurIndex (fCounter s) \<noteq> NextIndex (fCounter s))
            \<and> TrySwitchState s = (s1, i)
            \<and> i = ReadCurrentState s1
            \<and> TrySwitchState_result s1 = (s1, i, False)
            \<and> TrySwitchState s1 = (s1, i)"
    using again again' slot by (simp add: TrySwitchState_result_eq [of s] TrySwitchState_eq [of s])
  have second_part: "CurIndex (fCounter s) = NextIndex (fCounter s) \<longrightarrow>
            TrySwitchState_result s = (s, ReadCurrentState s, False)
            \<and> TrySwitchState s = (s, ReadCurrentState s)"
    by (simp add: TrySwitchState_result_eq [of s] TrySwitchState_eq [of s] SetCurIndex_idle
        ReadCurrentState_def CurArrayIndex_def)
  show ?thesis using first_part second_part by blast
qed

text \<open>The witness: the initial state, where \<open>cur = next = 0\<close>.\<close>

theorem C7_try_switch_twice_witness:
  "CurIndex (fCounter (JackAtomicState_init (0::nat) 0)) = NextIndex (fCounter (JackAtomicState_init (0::nat) 0))
   \<and> TrySwitchState_result (JackAtomicState_init (0::nat) 0)
       = (JackAtomicState_init 0 0, 0, False)"
  using C7_try_switch_twice [of "JackAtomicState_init (0::nat) 0"]
  by (simp add: JackAtomicState_init_def ReadCurrentState_def counter_defs)

section \<open>C8: a write that starts over an unswitched update\<close>

text \<open>
  C8 says that a write that starts while \<open>byte[p]\<close> is set discards the unswitched
  update by overwriting its slot in place, with no copy. The code skips the copy on the
  ground its comment on \<open>need_copy\<close> gives, that a set \<open>byte[p]\<close> means no switch
  has occurred since that update; a switch of the other pending state, which the header
  allows at any time, is not counted. The slot handed out is the one the rule of
  \<open>SwapIndex1\<close> gives for the current slot the call finds, and slot 0 belongs to both
  pending states. With current
  slot 1 the second write of pending state 1 is handed slot 0, stores 2 there and stops; a
  write and switch of pending state 2 make slot 2 current; the third write of pending
  state 1 starts with the flag set and is handed slot 1, with no copy, so its store of 3
  goes to slot 1, over the 1 of the first write, and the unswitched 2 stays in slot 0.
\<close>

theorem C8_restart_handed_another_slot:
  "run_arr [BeginWrite_arr 1, Store_arr 1 (\<lambda>_. 1), EndWrite_arr 1, Switch_arr 1,
            BeginWrite_arr 1]
       (start_arr (JackAtomicArrayState_init (0::nat) 0 0))
     = Inr \<lparr>exch_arr = \<lparr>fState_arr = [1, 1, 0], fCounter_arr = \<lparr>fByteVal = [1, 0, 0, 1]\<rparr>\<rparr>,
             held = [(1, 0)], was_published = [False, False], switched_arr = [True]\<rparr>
   \<and> run_arr [BeginWrite_arr 1, Store_arr 1 (\<lambda>_. 1), EndWrite_arr 1, Switch_arr 1,
              BeginWrite_arr 1, Store_arr 1 (\<lambda>_. 2), EndWrite_arr 1,
              BeginWrite_arr 2, Store_arr 2 (\<lambda>_. 7), EndWrite_arr 2, Switch_arr 2,
              BeginWrite_arr 1]
       (start_arr (JackAtomicArrayState_init (0::nat) 0 0))
     = Inr \<lparr>exch_arr = \<lparr>fState_arr = [2, 1, 7], fCounter_arr = \<lparr>fByteVal = [2, 0, 0, 2]\<rparr>\<rparr>,
             held = [(1, 1)], was_published = [True, False, False, False],
             switched_arr = [True, True]\<rparr>
   \<and> run_arr [BeginWrite_arr 1, Store_arr 1 (\<lambda>_. 1), EndWrite_arr 1, Switch_arr 1,
              BeginWrite_arr 1, Store_arr 1 (\<lambda>_. 2), EndWrite_arr 1,
              BeginWrite_arr 2, Store_arr 2 (\<lambda>_. 7), EndWrite_arr 2, Switch_arr 2,
              BeginWrite_arr 1, Store_arr 1 (\<lambda>_. 3)]
       (start_arr (JackAtomicArrayState_init (0::nat) 0 0))
     = Inr \<lparr>exch_arr = \<lparr>fState_arr = [2, 3, 7], fCounter_arr = \<lparr>fByteVal = [2, 0, 0, 2]\<rparr>\<rparr>,
             held = [(1, 1)], was_published = [True, False, False, False],
             switched_arr = [True, True]\<rparr>"
  by (simp add: array_defs)

text \<open>
  The rest of C8 holds of the code. For a well-formed array exchanger and a pending state
  \<open>p\<close> of 1 and 2, \<open>WriteNextStateStart(p, &result)\<close> sets the flag exactly when
  \<open>byte[p]\<close> was not 0, and clears \<open>byte[p]\<close>, after which a switch of \<open>p\<close> changes
  nothing: the update is discarded. The copy is made exactly when the flag is false. When
  the flag is true the slots are left as they are and the slot returned is the one a
  switch of \<open>p\<close> would have promoted. It is the slot a start of \<open>p\<close> is handed from
  every state with the same current slot, so the writer overwrites the unswitched update
  in place when the current slot has not changed since that update was started; in
  particular a writer that starts, stores, stops and starts again is handed the same slot
  with the flag set and no copy. In scenario S5 the flag is true, and after the switch the
  current state reads 2 and \<open>byte[3]\<close> has gone from 0 to 1.
\<close>

lemma was_published_flag:
  fixes s :: "'a JackAtomicArrayState"
  assumes "wf_arr s" and "p \<in> {1, 2}"
  shows "(\<exists>s1 i r. WriteNextStateStart_result_arr p s = Inr (s1, i, r)
           \<and> r = (GetIndex1 (fCounter_arr s) p \<noteq> 0)
           \<and> GetIndex1 (fCounter_arr s1) p = 0
           \<and> TrySwitchState_result_arr p s1 = Inr (s1, ReadCurrentState_arr s, False)
           \<and> (\<not> r \<longrightarrow> fState_arr s1 = (fState_arr s)[i := fState_arr s ! ReadCurrentState_arr s])
           \<and> (r \<longrightarrow> fState_arr s1 = fState_arr s
                  \<and> (\<exists>t1. TrySwitchState_arr p s = Inr (t1, i) \<and> ReadCurrentState_arr t1 = i))
           \<and> (\<forall>s0 :: 'a JackAtomicArrayState. wf_arr s0 \<and> ReadCurrentState_arr s0 = ReadCurrentState_arr s \<longrightarrow>
                  (\<exists>s0' r0. WriteNextStateStart_result_arr p s0 = Inr (s0', i, r0)))
           \<and> (\<exists>s1' s2 s3. store_arr i f s1 = Inr s1'
                 \<and> WriteNextStateStop_arr p s1' = Inr s2
                 \<and> WriteNextStateStart_result_arr p s2 = Inr (s3, i, True)
                 \<and> fState_arr s3 = fState_arr s2))
       \<and> run_arr [BeginWrite_arr 1, Store_arr 1 (\<lambda>_. 1), EndWrite_arr 1,
                  BeginWrite_arr 1, Store_arr 1 (\<lambda>_. 2), EndWrite_arr 1, Switch_arr 1]
           (start_arr (JackAtomicArrayState_init (0::nat) 0 0))
         = Inr \<lparr>exch_arr = \<lparr>fState_arr = [0, 2, 0], fCounter_arr = \<lparr>fByteVal = [1, 0, 0, 1]\<rparr>\<rparr>,
                 held = [], was_published = [True, False], switched_arr = [True]\<rparr>
       \<and> load_arr \<lparr>fState_arr = [0, 2, 0::nat], fCounter_arr = \<lparr>fByteVal = [1, 0, 0, 1]\<rparr>\<rparr>
            (ReadCurrentState_arr \<lparr>fState_arr = [0, 2, 0::nat], fCounter_arr = \<lparr>fByteVal = [1, 0, 0, 1]\<rparr>\<rparr>)
         = Inr 2"
proof -
  let ?c = "fCounter_arr s"
  have len: "length (fByteVal ?c) = 4" using assms(1) by (simp add: wf_arr_def)
  have p4: "p < 4" using assms(2) by auto
  obtain s1 i r where st: "WriteNextStateStartAux_arr p s = Inr (s1, i, r)"
    by (simp add: WriteNextStateStartAux_arr_eq [OF assms])
  have r: "r = (GetIndex1 ?c p \<noteq> 0)" and i: "i = (if ReadCurrentState_arr s = p then 0 else p)"
    using st by (simp_all add: WriteNextStateStartAux_arr_eq [OF assms])
  have c1: "fCounter_arr s1 = SetIndex1 p 0 ?c"
    using st by (auto simp: WriteNextStateStartAux_arr_eq [OF assms] split: if_splits)
  have f1: "r \<longrightarrow> fState_arr s1 = fState_arr s"
    and f2: "\<not> r \<longrightarrow> fState_arr s1 = (fState_arr s)[i := fState_arr s ! ReadCurrentState_arr s]"
    using st by (auto simp: WriteNextStateStartAux_arr_eq [OF assms] split: if_splits)
  have promoted: "r \<longrightarrow> (\<exists>t1. TrySwitchState_arr p s = Inr (t1, i) \<and> ReadCurrentState_arr t1 = i)"
    using TrySwitchState_arr_written [OF len assms(2)] r i by simp
  have earlier: "\<forall>s0 :: 'a JackAtomicArrayState. wf_arr s0 \<and> ReadCurrentState_arr s0 = ReadCurrentState_arr s \<longrightarrow>
                  (\<exists>s0' r0. WriteNextStateStart_result_arr p s0 = Inr (s0', i, r0))"
  proof (intro allI impI, elim conjE)
    fix s0 :: "'a JackAtomicArrayState"
    assume wf0: "wf_arr s0" and same: "ReadCurrentState_arr s0 = ReadCurrentState_arr s"
    show "\<exists>s0' r0. WriteNextStateStart_result_arr p s0 = Inr (s0', i, r0)"
      using i same
      by (simp add: WriteNextStateStart_result_arr_def WriteNextStateStartAux_arr_eq [OF wf0 assms(2)])
  qed
  have z: "GetIndex1 (fCounter_arr s1) p = 0"
    by (simp add: c1 SetIndex1_bytes [OF len assms(2)])
  have cur1: "ReadCurrentState_arr s1 = ReadCurrentState_arr s"
    by (simp add: ReadCurrentState_arr_def c1 SetIndex1_bytes [OF len assms(2)])
  have sw: "TrySwitchState_result_arr p s1 = Inr (s1, ReadCurrentState_arr s, False)"
    using z cur1 by (simp add: TrySwitchState_result_arr_eq [OF p4] switch_body_idle
        ReadCurrentState_arr_def)
  have wf1: "wf_arr s1" by (rule wf_arr_start [OF assms st])
  let ?s1' = "s1\<lparr>fState_arr := (fState_arr s1)[i := f (fState_arr s1 ! i)]\<rparr>"
  have i3: "i < 3" using i assms(2) by auto
  have stored: "store_arr i f s1 = Inr ?s1'" using i3 by (simp add: store_arr_def)
  let ?s2 = "?s1'\<lparr>fCounter_arr := SetIndex1 p 1 (fCounter_arr s1)\<rparr>"
  have stop: "WriteNextStateStop_arr p ?s1' = Inr ?s2"
    by (simp add: WriteNextStateStop_arr_def WriteNextStateStopAux_arr_eq [OF p4])
  have len1: "length (fByteVal (fCounter_arr s1)) = 4" using wf1 by (simp add: wf_arr_def)
  have wf2: "wf_arr ?s2"
    using wf1 by (simp add: wf_arr_def SetIndex1_bytes [OF len1 assms(2)])
  have nz2: "GetIndex1 (fCounter_arr ?s2) p \<noteq> 0"
    by (simp add: SetIndex1_bytes [OF len1 assms(2)])
  have cur2: "ReadCurrentState_arr ?s2 = ReadCurrentState_arr s"
    using cur1 by (simp add: ReadCurrentState_arr_def SetIndex1_bytes [OF len1 assms(2)])
  have again: "\<exists>s3. WriteNextStateStart_result_arr p ?s2 = Inr (s3, i, True)
                 \<and> fState_arr s3 = fState_arr ?s2"
    unfolding WriteNextStateStart_result_arr_def WriteNextStateStartAux_arr_eq [OF wf2 assms(2)]
    using nz2 cur2 i by simp
  have general: "\<exists>s1 i r. WriteNextStateStart_result_arr p s = Inr (s1, i, r)
           \<and> r = (GetIndex1 (fCounter_arr s) p \<noteq> 0)
           \<and> GetIndex1 (fCounter_arr s1) p = 0
           \<and> TrySwitchState_result_arr p s1 = Inr (s1, ReadCurrentState_arr s, False)
           \<and> (\<not> r \<longrightarrow> fState_arr s1 = (fState_arr s)[i := fState_arr s ! ReadCurrentState_arr s])
           \<and> (r \<longrightarrow> fState_arr s1 = fState_arr s
                  \<and> (\<exists>t1. TrySwitchState_arr p s = Inr (t1, i) \<and> ReadCurrentState_arr t1 = i))
           \<and> (\<forall>s0 :: 'a JackAtomicArrayState. wf_arr s0 \<and> ReadCurrentState_arr s0 = ReadCurrentState_arr s \<longrightarrow>
                  (\<exists>s0' r0. WriteNextStateStart_result_arr p s0 = Inr (s0', i, r0)))
           \<and> (\<exists>s1' s2 s3. store_arr i f s1 = Inr s1'
                 \<and> WriteNextStateStop_arr p s1' = Inr s2
                 \<and> WriteNextStateStart_result_arr p s2 = Inr (s3, i, True)
                 \<and> fState_arr s3 = fState_arr s2)"
    using st r z f1 f2 sw stored stop again promoted earlier
    unfolding WriteNextStateStart_result_arr_def
    by blast
  have s5: "run_arr [BeginWrite_arr 1, Store_arr 1 (\<lambda>_. 1), EndWrite_arr 1,
                  BeginWrite_arr 1, Store_arr 1 (\<lambda>_. 2), EndWrite_arr 1, Switch_arr 1]
           (start_arr (JackAtomicArrayState_init (0::nat) 0 0))
         = Inr \<lparr>exch_arr = \<lparr>fState_arr = [0, 2, 0], fCounter_arr = \<lparr>fByteVal = [1, 0, 0, 1]\<rparr>\<rparr>,
                 held = [], was_published = [True, False], switched_arr = [True]\<rparr>"
    by (simp add: array_defs)
  have rd: "load_arr \<lparr>fState_arr = [0, 2, 0::nat], fCounter_arr = \<lparr>fByteVal = [1, 0, 0, 1]\<rparr>\<rparr>
            (ReadCurrentState_arr \<lparr>fState_arr = [0, 2, 0::nat], fCounter_arr = \<lparr>fByteVal = [1, 0, 0, 1]\<rparr>\<rparr>)
         = Inr 2"
    by (simp add: array_defs)
  show ?thesis using general s5 rd by blast
qed

text \<open>
  For example the state of S5 after the first write of pending state 1, where \<open>byte[1]\<close>
  is 1.
\<close>

lemma was_published_flag_example:
  "wf_arr \<lparr>fState_arr = [0, 1, 0::nat], fCounter_arr = \<lparr>fByteVal = [0, 1, 0, 0]\<rparr>\<rparr>
   \<and> (1::nat) \<in> {1, 2}
   \<and> WriteNextStateStart_result_arr 1
        \<lparr>fState_arr = [0, 1, 0::nat], fCounter_arr = \<lparr>fByteVal = [0, 1, 0, 0]\<rparr>\<rparr>
      = Inr (\<lparr>fState_arr = [0, 1, 0], fCounter_arr = \<lparr>fByteVal = [0, 0, 0, 0]\<rparr>\<rparr>, 1, True)"
proof -
  let ?s = "\<lparr>fState_arr = [0, 1, 0::nat], fCounter_arr = \<lparr>fByteVal = [0, 1, 0, 0]\<rparr>\<rparr>"
  have wf: "wf_arr ?s" by (simp add: wf_arr_def GetIndex1_def)
  have one: "(1::nat) \<in> {1, 2}" by simp
  have direct: "WriteNextStateStart_result_arr 1 ?s
      = Inr (\<lparr>fState_arr = [0, 1, 0], fCounter_arr = \<lparr>fByteVal = [0, 0, 0, 0]\<rparr>\<rparr>, 1, True)"
    by (simp add: array_defs)
  show ?thesis using was_published_flag [OF wf one, of "\<lambda>_. 2"] wf direct by simp
qed

section \<open>C9: the counter stays at \<open>next = cur\<close> or \<open>next = cur + 1\<close>\<close>

text \<open>
  C9: every run from the constructed state in which the writer's calls are paired and
  nested runs to its end (short of \<open>2\<^sup>3\<^sup>1\<close> calls), and the configuration it ends in
  satisfies the protocol invariant. In every configuration that satisfies the invariant
  the counter has \<open>next = cur\<close> or \<open>next = cur + 1\<close> modulo \<open>2\<^sup>1\<^sup>6\<close>, with \<open>next = cur\<close>
  whenever a write region is open; every call that the discipline allows there (a start,
  a store, a switch, or a stop that closes an open region) returns and leads to a
  configuration that satisfies the invariant, and so the predicate, again;
  \<open>ReadCurrentState\<close> only reads the counter. Consequently a switch that finds
  \<open>cur \<noteq> next\<close> adds exactly one to \<open>cur\<close>. Every counter the predicate allows does
  occur: for each 16-bit \<open>k\<close> a disciplined run from the constructed state ends with
  \<open>cur = next = k\<close>, and another with \<open>cur = k\<close> and \<open>next = k + 1\<close>.
\<close>

theorem C9_counter_invariant:
  fixes c d :: "'a config"
  shows "(paired xs 0 \<and> length xs < 2147483647 \<longrightarrow>
            (\<exists>c'. run xs (start (JackAtomicState_init a b)) = Inr c'))
       \<and> (paired xs 0 \<and> run xs (start (JackAtomicState_init a b)) = Inr c \<longrightarrow>
            protocol_inv c
            \<and> (NextIndex (fCounter (exch c)) = CurIndex (fCounter (exch c))
                \<or> NextIndex (fCounter (exch c)) = CurIndex (fCounter (exch c)) + 1))
       \<and> (protocol_inv d \<longrightarrow>
            (NextIndex (fCounter (exch d)) = CurIndex (fCounter (exch d))
             \<or> NextIndex (fCounter (exch d)) = CurIndex (fCounter (exch d)) + 1)
          \<and> (ptrs d \<noteq> [] \<longrightarrow> NextIndex (fCounter (exch d)) = CurIndex (fCounter (exch d)))
          \<and> (\<forall>x. (x = EndWrite \<longrightarrow> ptrs d \<noteq> []) \<and> length (ptrs d) < 2147483647 \<longrightarrow>
                (\<exists>d1. step x d = Inr d1
                   \<and> protocol_inv d1
                   \<and> (NextIndex (fCounter (exch d1)) = CurIndex (fCounter (exch d1))
                       \<or> NextIndex (fCounter (exch d1)) = CurIndex (fCounter (exch d1)) + 1)))
          \<and> (IsPendingChange (exch d) \<longrightarrow>
                GetCurrentIndex (fst (TrySwitchState (exch d))) = GetCurrentIndex (exch d) + 1)
          \<and> (\<forall>s1 i. TrySwitchState_result (exch d) = (s1, i, True) \<longrightarrow>
                GetCurrentIndex s1 = GetCurrentIndex (exch d) + 1))
       \<and> (\<exists>ys e. paired ys 0 \<and> run ys (start (JackAtomicState_init a b)) = Inr e
             \<and> ptrs e = []
             \<and> CurIndex (fCounter (exch e)) = k \<and> NextIndex (fCounter (exch e)) = k)
       \<and> (\<exists>ys e. paired ys 0 \<and> run ys (start (JackAtomicState_init a b)) = Inr e
             \<and> ptrs e = []
             \<and> CurIndex (fCounter (exch e)) = k \<and> NextIndex (fCounter (exch e)) = k + 1)"
proof -
  have returns: "paired xs 0 \<and> length xs < 2147483647 \<longrightarrow>
            (\<exists>c'. run xs (start (JackAtomicState_init a b)) = Inr c')"
    using run_no_fault [OF start_inv, of xs a b] by (simp add: start_def)
  have reach: "paired xs 0 \<and> run xs (start (JackAtomicState_init a b)) = Inr c \<longrightarrow>
            protocol_inv c
            \<and> (NextIndex (fCounter (exch c)) = CurIndex (fCounter (exch c))
                \<or> NextIndex (fCounter (exch c)) = CurIndex (fCounter (exch c)) + 1)"
  proof
    assume "paired xs 0 \<and> run xs (start (JackAtomicState_init a b)) = Inr c"
    then have iv: "protocol_inv c" using reachable_inv [of xs a b c] by simp
    then show "protocol_inv c
            \<and> (NextIndex (fCounter (exch c)) = CurIndex (fCounter (exch c))
                \<or> NextIndex (fCounter (exch c)) = CurIndex (fCounter (exch c)) + 1)"
      by (simp add: protocol_inv_def)
  qed
  have inv: "protocol_inv d \<longrightarrow>
            (NextIndex (fCounter (exch d)) = CurIndex (fCounter (exch d))
             \<or> NextIndex (fCounter (exch d)) = CurIndex (fCounter (exch d)) + 1)
          \<and> (ptrs d \<noteq> [] \<longrightarrow> NextIndex (fCounter (exch d)) = CurIndex (fCounter (exch d)))
          \<and> (\<forall>x. (x = EndWrite \<longrightarrow> ptrs d \<noteq> []) \<and> length (ptrs d) < 2147483647 \<longrightarrow>
                (\<exists>d1. step x d = Inr d1
                   \<and> protocol_inv d1
                   \<and> (NextIndex (fCounter (exch d1)) = CurIndex (fCounter (exch d1))
                       \<or> NextIndex (fCounter (exch d1)) = CurIndex (fCounter (exch d1)) + 1)))
          \<and> (IsPendingChange (exch d) \<longrightarrow>
                GetCurrentIndex (fst (TrySwitchState (exch d))) = GetCurrentIndex (exch d) + 1)
          \<and> (\<forall>s1 i. TrySwitchState_result (exch d) = (s1, i, True) \<longrightarrow>
                GetCurrentIndex s1 = GetCurrentIndex (exch d) + 1)"
  proof
    assume iv: "protocol_inv d"
    then have now: "NextIndex (fCounter (exch d)) = CurIndex (fCounter (exch d))
             \<or> NextIndex (fCounter (exch d)) = CurIndex (fCounter (exch d)) + 1"
      and writing: "ptrs d \<noteq> [] \<longrightarrow> NextIndex (fCounter (exch d)) = CurIndex (fCounter (exch d))"
      by (simp_all add: protocol_inv_def)
    have preserved: "\<forall>x. (x = EndWrite \<longrightarrow> ptrs d \<noteq> []) \<and> length (ptrs d) < 2147483647 \<longrightarrow>
                (\<exists>d1. step x d = Inr d1
                   \<and> protocol_inv d1
                   \<and> (NextIndex (fCounter (exch d1)) = CurIndex (fCounter (exch d1))
                       \<or> NextIndex (fCounter (exch d1)) = CurIndex (fCounter (exch d1)) + 1))"
    proof (intro allI impI, elim conjE)
      fix x :: "'a op"
      assume e: "x = EndWrite \<longrightarrow> ptrs d \<noteq> []" and small: "length (ptrs d) < 2147483647"
      obtain d1 where s: "step x d = Inr d1"
        using step_no_fault [OF iv e small] by blast
      have iv1: "protocol_inv d1" by (rule step_inv [OF iv s e])
      then have "NextIndex (fCounter (exch d1)) = CurIndex (fCounter (exch d1))
                    \<or> NextIndex (fCounter (exch d1)) = CurIndex (fCounter (exch d1)) + 1"
        by (simp add: protocol_inv_def)
      then show "\<exists>d1. step x d = Inr d1
                   \<and> protocol_inv d1
                   \<and> (NextIndex (fCounter (exch d1)) = CurIndex (fCounter (exch d1))
                       \<or> NextIndex (fCounter (exch d1)) = CurIndex (fCounter (exch d1)) + 1)"
        using s iv1 by blast
    qed
    have advance: "IsPendingChange (exch d) \<longrightarrow>
             GetCurrentIndex (fst (TrySwitchState (exch d))) = GetCurrentIndex (exch d) + 1"
      using now by (auto simp: IsPendingChange_def TrySwitchState_eq GetCurrentIndex_def counter_defs)
    have advance': "\<forall>s1 i. TrySwitchState_result (exch d) = (s1, i, True) \<longrightarrow>
             GetCurrentIndex s1 = GetCurrentIndex (exch d) + 1"
      using now by (auto simp: TrySwitchState_result_eq GetCurrentIndex_def counter_defs)
    show "(NextIndex (fCounter (exch d)) = CurIndex (fCounter (exch d))
             \<or> NextIndex (fCounter (exch d)) = CurIndex (fCounter (exch d)) + 1)
          \<and> (ptrs d \<noteq> [] \<longrightarrow> NextIndex (fCounter (exch d)) = CurIndex (fCounter (exch d)))
          \<and> (\<forall>x. (x = EndWrite \<longrightarrow> ptrs d \<noteq> []) \<and> length (ptrs d) < 2147483647 \<longrightarrow>
                (\<exists>d1. step x d = Inr d1
                   \<and> protocol_inv d1
                   \<and> (NextIndex (fCounter (exch d1)) = CurIndex (fCounter (exch d1))
                       \<or> NextIndex (fCounter (exch d1)) = CurIndex (fCounter (exch d1)) + 1)))
          \<and> (IsPendingChange (exch d) \<longrightarrow>
                GetCurrentIndex (fst (TrySwitchState (exch d))) = GetCurrentIndex (exch d) + 1)
          \<and> (\<forall>s1 i. TrySwitchState_result (exch d) = (s1, i, True) \<longrightarrow>
                GetCurrentIndex s1 = GetCurrentIndex (exch d) + 1)"
      using now writing preserved advance advance' by blast
  qed
  have idle: "\<exists>ys e. paired ys 0 \<and> run ys (start (JackAtomicState_init a b)) = Inr e
             \<and> ptrs e = []
             \<and> CurIndex (fCounter (exch e)) = k \<and> NextIndex (fCounter (exch e)) = k"
    by (rule every_idle_counter_reached)
  have published: "\<exists>ys e. paired ys 0 \<and> run ys (start (JackAtomicState_init a b)) = Inr e
             \<and> ptrs e = []
             \<and> CurIndex (fCounter (exch e)) = k \<and> NextIndex (fCounter (exch e)) = k + 1"
    by (rule every_published_counter_reached)
  from returns reach inv idle published show ?thesis by (intro conjI)
qed

text \<open>
  The theorem at two places: one published write from the constructed state, where
  \<open>cur = 0\<close> and \<open>next = 1\<close>; and the published write at the wrap-around, which a
  disciplined run from the constructed state reaches, where \<open>cur = 65535\<close> and
  \<open>next = 0\<close>, and from which the switch makes \<open>cur = 0\<close>.
\<close>

theorem C9_counter_invariant_witness:
  "paired [BeginWrite 0, Store (\<lambda>_. 42::nat), EndWrite] 0
   \<and> run [BeginWrite 0, Store (\<lambda>_. 42), EndWrite] (start (JackAtomicState_init (0::nat) 0))
      = Inr \<lparr>exch = \<lparr>fState = [0, 42], fCounter = \<lparr>fShortVal1 = 0, fShortVal2 = 1\<rparr>,
                       fCallWriteCounter = 0\<rparr>,
              ptrs = [], switched = []\<rparr>
   \<and> protocol_inv \<lparr>exch = \<lparr>fState = [0, 42::nat], fCounter = \<lparr>fShortVal1 = 0, fShortVal2 = 1\<rparr>,
                              fCallWriteCounter = 0\<rparr>,
                     ptrs = [], switched = []\<rparr>
   \<and> (\<exists>ys e. paired ys 0 \<and> run ys (start (JackAtomicState_init (0::nat) 0)) = Inr e
         \<and> CurIndex (fCounter (exch e)) = 65535 \<and> NextIndex (fCounter (exch e)) = 0
         \<and> protocol_inv e
         \<and> IsPendingChange (exch e)
         \<and> GetCurrentIndex (fst (TrySwitchState (exch e))) = 0)"
proof -
  let ?s = "\<lparr>fState = [0, 42::nat], fCounter = \<lparr>fShortVal1 = 0, fShortVal2 = 1\<rparr>,
             fCallWriteCounter = 0\<rparr>"
  let ?c = "\<lparr>exch = ?s, ptrs = [], switched = []\<rparr>"
  note t = C9_counter_invariant [of "[BeginWrite 0, Store (\<lambda>_. 42), EndWrite]" 0 0 ?c ?c 65535]
  have p: "paired [BeginWrite 0, Store (\<lambda>_. 42::nat), EndWrite] 0" by simp
  have r: "run [BeginWrite 0, Store (\<lambda>_. 42), EndWrite] (start (JackAtomicState_init (0::nat) 0))
             = Inr ?c"
    by (simp add: single_defs)
  have ic: "protocol_inv ?c" using t p r by blast
  from t obtain ys e where pe: "paired ys 0"
    and re: "run ys (start (JackAtomicState_init (0::nat) 0)) = Inr e"
    and ce: "CurIndex (fCounter (exch e)) = 65535"
    and ne: "NextIndex (fCounter (exch e)) = 65535 + 1"
    by blast
  note u = C9_counter_invariant [of ys 0 0 e e 0]
  have ie: "protocol_inv e" using u pe re by blast
  have pend: "IsPendingChange (exch e)" using ce ne by (simp add: IsPendingChange_def)
  have "GetCurrentIndex (fst (TrySwitchState (exch e))) = GetCurrentIndex (exch e) + 1"
    using u ie pend by blast
  then have adv: "GetCurrentIndex (fst (TrySwitchState (exch e))) = 0"
    using ce by (simp add: GetCurrentIndex_def)
  have "\<exists>ys e. paired ys 0 \<and> run ys (start (JackAtomicState_init (0::nat) 0)) = Inr e
         \<and> CurIndex (fCounter (exch e)) = 65535 \<and> NextIndex (fCounter (exch e)) = 0
         \<and> protocol_inv e
         \<and> IsPendingChange (exch e)
         \<and> GetCurrentIndex (fst (TrySwitchState (exch e))) = 0"
    using pe re ce ne ie pend adv by auto
  then show ?thesis using p r ic by simp
qed

section \<open>C10: the current slot and the slots being written\<close>

text \<open>
  C10 says that in both exchangers the slot \<open>ReadCurrentState\<close> designates is never a
  slot with a write in progress. The header of the array exchanger says that different
  pending states can be written independently and concurrently and that their
  \<open>WriteNextStateStart\<close> calls can be interleaved. The code hands slot 0 to the writer
  of either pending state when that state's slot is current. In the run below writer 2
  opens its second write region and is handed slot 0, where it stores 21. Writer 1
  completes a write and the switch of pending state 1 makes slot 1 current; writer 1 then
  starts again and is handed slot 0 as well, and the copy of the current slot into it
  replaces the 21 by 11. Writer 1 stores 12 and stops, the switch of pending state 1 makes
  slot 0 current, and writer 2 is still inside its write region on slot 0: its next store
  changes what the reader reads, from 12 to 22, with no switch.
\<close>

theorem C10_current_slot_under_write:
  "run_arr [BeginWrite_arr 2, Store_arr 2 (\<lambda>_. 20), EndWrite_arr 2, Switch_arr 2,
            BeginWrite_arr 2, Store_arr 2 (\<lambda>_. 21),
            BeginWrite_arr 1, Store_arr 1 (\<lambda>_. 11), EndWrite_arr 1, Switch_arr 1,
            BeginWrite_arr 1]
       (start_arr (JackAtomicArrayState_init (0::nat) 0 0))
     = Inr \<lparr>exch_arr = \<lparr>fState_arr = [11, 11, 20], fCounter_arr = \<lparr>fByteVal = [1, 0, 0, 2]\<rparr>\<rparr>,
             held = [(1, 0), (2, 0)], was_published = [False, False, False, False],
             switched_arr = [True, True]\<rparr>
   \<and> run_arr [BeginWrite_arr 2, Store_arr 2 (\<lambda>_. 20), EndWrite_arr 2, Switch_arr 2,
              BeginWrite_arr 2, Store_arr 2 (\<lambda>_. 21),
              BeginWrite_arr 1, Store_arr 1 (\<lambda>_. 11), EndWrite_arr 1, Switch_arr 1,
              BeginWrite_arr 1, Store_arr 1 (\<lambda>_. 12), EndWrite_arr 1, Switch_arr 1]
       (start_arr (JackAtomicArrayState_init (0::nat) 0 0))
     = Inr \<lparr>exch_arr = \<lparr>fState_arr = [12, 11, 20], fCounter_arr = \<lparr>fByteVal = [0, 0, 0, 3]\<rparr>\<rparr>,
             held = [(2, 0)], was_published = [False, False, False, False],
             switched_arr = [True, True, True]\<rparr>
   \<and> ReadCurrentState_arr \<lparr>fState_arr = [12, 11, 20::nat], fCounter_arr = \<lparr>fByteVal = [0, 0, 0, 3]\<rparr>\<rparr>
     = 0
   \<and> run_arr [BeginWrite_arr 2, Store_arr 2 (\<lambda>_. 20), EndWrite_arr 2, Switch_arr 2,
              BeginWrite_arr 2, Store_arr 2 (\<lambda>_. 21),
              BeginWrite_arr 1, Store_arr 1 (\<lambda>_. 11), EndWrite_arr 1, Switch_arr 1,
              BeginWrite_arr 1, Store_arr 1 (\<lambda>_. 12), EndWrite_arr 1, Switch_arr 1,
              Store_arr 2 (\<lambda>_. 22)]
       (start_arr (JackAtomicArrayState_init (0::nat) 0 0))
     = Inr \<lparr>exch_arr = \<lparr>fState_arr = [22, 11, 20], fCounter_arr = \<lparr>fByteVal = [0, 0, 0, 3]\<rparr>\<rparr>,
             held = [(2, 0)], was_published = [False, False, False, False],
             switched_arr = [True, True, True]\<rparr>"
  by (simp add: array_defs)

text \<open>
  The rest of C10 holds of the code. In the two-slot exchanger, along every run of a
  disciplined writer and in every configuration that satisfies the protocol invariant,
  every pointer the writer holds is one of the two slots and is not the current slot,
  before and after a switch; and a start hands out a slot that is not current, whatever
  its copy read.
\<close>

lemma single_writer_slot_never_current:
  fixes c :: "'a config"
  assumes "paired xs 0 \<and> run xs (start (JackAtomicState_init a b)) = Inr c \<or> protocol_inv c"
  shows "\<forall>i\<in>set (ptrs c). i < 2 \<and> i \<noteq> ReadCurrentState (exch c)
           \<and> i \<noteq> snd (TrySwitchState (exch c))
           \<and> i \<noteq> ReadCurrentState (fst (TrySwitchState (exch c)))"
proof
  fix i assume i: "i \<in> set (ptrs c)"
  have iv: "protocol_inv c" using assms reachable_inv [of xs a b c] by auto
  let ?k = "fCounter (exch c)"
  have ne: "ptrs c \<noteq> []" using i by auto
  have eq: "NextIndex ?k = CurIndex ?k" using iv ne by (simp add: protocol_inv_def)
  have ii: "i = unat ((CurIndex ?k + 1) AND 1)"
    using iv i by (simp add: protocol_inv_def NextArrayIndex_def)
  show "i < 2 \<and> i \<noteq> ReadCurrentState (exch c)
           \<and> i \<noteq> snd (TrySwitchState (exch c))
           \<and> i \<noteq> ReadCurrentState (fst (TrySwitchState (exch c)))"
    using eq slot_lt_2 [of "CurIndex ?k + 1"] unat_slot_parity [of "CurIndex ?k"]
    unfolding ii
    by (simp add: ReadCurrentState_def TrySwitchState_eq CurArrayIndex_def SetCurIndex_def
        CurIndex_def NextIndex_def)
qed

lemma single_start_slot_not_current:
  assumes "WriteNextStateStart g s = Inr (s1, i)"
  shows "i \<noteq> ReadCurrentState s \<and> i \<noteq> ReadCurrentState s1 \<and> i < 2"
  using assms slot_lt_2 [of "CurIndex (fCounter s) + 1"] unat_slot_parity [of "CurIndex (fCounter s)"]
  by (auto simp: WriteNextStateStart_def WriteNextStateStartAux_eq ReadCurrentState_def
      Let_def counter_defs split: if_splits)

text \<open>
  In the array exchanger a start on a well-formed state hands out a slot that is not
  current, starts of the two pending states from one state hand out different slots, and a
  switch of the writer's own pending state inside its write region changes nothing.
\<close>

lemma array_start_slot_not_current:
  assumes "wf_arr s" and "p \<in> {1, 2}"
  shows "\<exists>s1 i. WriteNextStateStart_arr p s = Inr (s1, i)
           \<and> i < 3 \<and> i \<noteq> ReadCurrentState_arr s \<and> i \<noteq> ReadCurrentState_arr s1
           \<and> TrySwitchState_arr p s1 = Inr (s1, ReadCurrentState_arr s)"
proof -
  have len: "length (fByteVal (fCounter_arr s)) = 4" using assms(1) by (simp add: wf_arr_def)
  have p4: "p < 4" using assms(2) by auto
  obtain s1 i r where st: "WriteNextStateStartAux_arr p s = Inr (s1, i, r)"
    by (simp add: WriteNextStateStartAux_arr_eq [OF assms])
  have i: "i = (if ReadCurrentState_arr s = p then 0 else p)"
    using st by (simp add: WriteNextStateStartAux_arr_eq [OF assms])
  have c1: "fCounter_arr s1 = SetIndex1 p 0 (fCounter_arr s)"
    using st by (auto simp: WriteNextStateStartAux_arr_eq [OF assms] split: if_splits)
  have cur1: "ReadCurrentState_arr s1 = ReadCurrentState_arr s"
    by (simp add: ReadCurrentState_arr_def c1 SetIndex1_bytes [OF len assms(2)])
  have z: "GetIndex1 (fCounter_arr s1) p = 0"
    by (simp add: c1 SetIndex1_bytes [OF len assms(2)])
  have sw: "TrySwitchState_arr p s1 = Inr (s1, ReadCurrentState_arr s)"
    using z cur1 by (simp add: TrySwitchState_arr_eq [OF p4] switch_body_idle
        ReadCurrentState_arr_def)
  have "WriteNextStateStart_arr p s = Inr (s1, i)"
    using st by (simp add: WriteNextStateStart_arr_def bind_res_def)
  moreover have "i < 3 \<and> i \<noteq> ReadCurrentState_arr s \<and> i \<noteq> ReadCurrentState_arr s1"
    using assms(2) i cur1 by auto
  ultimately show ?thesis using sw by blast
qed

lemma array_distinct_ids_distinct_slots:
  assumes "wf_arr s" and "p \<in> {1, 2}" and "q \<in> {1, 2}" and "p \<noteq> q"
  shows "\<exists>s1 i s2 j. WriteNextStateStart_arr p s = Inr (s1, i)
           \<and> WriteNextStateStart_arr q s = Inr (s2, j) \<and> i \<noteq> j"
  using assms
  by (auto simp: WriteNextStateStart_arr_def bind_res_def WriteNextStateStartAux_arr_eq)

text \<open>
  With one pending state in use the array exchanger keeps the writer's slot apart from the
  current slot along every run, and no call faults.
\<close>

lemma step_arr_inv:
  assumes "arr_inv p c" and "p \<in> {1, 2}" and "op_id x = p"
  shows "\<exists>c1. step_arr x c = Inr c1 \<and> arr_inv p c1"
proof -
  let ?s = "exch_arr c"
  have wf: "wf_arr ?s" using assms(1) by (simp add: arr_inv_def)
  have len: "length (fByteVal (fCounter_arr ?s)) = 4" using wf by (simp add: wf_arr_def)
  have p4: "p < 4" using assms(2) by auto
  show ?thesis
  proof (cases x)
    case (BeginWrite_arr p')
    then have [simp]: "p' = p" using assms(3) by simp
    obtain s1 i r where st: "WriteNextStateStartAux_arr p ?s = Inr (s1, i, r)"
      by (simp add: WriteNextStateStartAux_arr_eq [OF wf assms(2)])
    have i: "i = (if ReadCurrentState_arr ?s = p then 0 else p)"
      using st by (simp add: WriteNextStateStartAux_arr_eq [OF wf assms(2)])
    have c1: "fCounter_arr s1 = SetIndex1 p 0 (fCounter_arr ?s)"
      using st by (auto simp: WriteNextStateStartAux_arr_eq [OF wf assms(2)] split: if_splits)
    have cur1: "ReadCurrentState_arr s1 = ReadCurrentState_arr ?s"
      by (simp add: ReadCurrentState_arr_def c1 SetIndex1_bytes [OF len assms(2)])
    have z: "GetIndex1 (fCounter_arr s1) p = 0"
      by (simp add: c1 SetIndex1_bytes [OF len assms(2)])
    have wf1: "wf_arr s1" by (rule wf_arr_start [OF wf assms(2) st])
    have "step_arr x c = Inr (c\<lparr>exch_arr := s1, held := (p, i) # held c,
                                 was_published := r # was_published c\<rparr>)"
      using st BeginWrite_arr by (simp add: bind_res_def WriteNextStateStart_result_arr_def)
    moreover have "arr_inv p (c\<lparr>exch_arr := s1, held := (p, i) # held c,
                                 was_published := r # was_published c\<rparr>)"
      using assms(1) wf1 cur1 z i by (auto simp: arr_inv_def)
    ultimately show ?thesis by blast
  next
    case (Store_arr p' f)
    show ?thesis
    proof (cases "map_of (held c) p'")
      case None
      then show ?thesis using Store_arr assms(1) by simp
    next
      case (Some i)
      then have "(p', i) \<in> set (held c)" by (rule map_of_SomeD)
      then have i3: "i < 3" using assms(1,2) by (auto simp: arr_inv_def)
      let ?s1 = "?s\<lparr>fState_arr := (fState_arr ?s)[i := f (fState_arr ?s ! i)]\<rparr>"
      have "step_arr x c = Inr (c\<lparr>exch_arr := ?s1\<rparr>)"
        using Store_arr Some i3 by (simp add: store_arr_def bind_res_def)
      moreover have "arr_inv p (c\<lparr>exch_arr := ?s1\<rparr>)"
        using assms(1) by (simp add: arr_inv_def wf_arr_def ReadCurrentState_arr_def)
      ultimately show ?thesis by blast
    qed
  next
    case (EndWrite_arr p')
    then have [simp]: "p' = p" using assms(3) by simp
    let ?s1 = "?s\<lparr>fCounter_arr := SetIndex1 p 1 (fCounter_arr ?s)\<rparr>"
    have "step_arr x c = Inr (c\<lparr>exch_arr := ?s1, held := filter (\<lambda>(q, i). q \<noteq> p) (held c)\<rparr>)"
      using EndWrite_arr
      by (simp add: bind_res_def WriteNextStateStop_arr_def WriteNextStateStopAux_arr_eq [OF p4])
    moreover have "filter (\<lambda>(q, i). q \<noteq> p) (held c) = []"
      using assms(1) by (auto simp: arr_inv_def filter_empty_conv)
    moreover have "wf_arr ?s1 \<and> ReadCurrentState_arr ?s1 = ReadCurrentState_arr ?s"
      using wf by (simp add: wf_arr_def ReadCurrentState_arr_def SetIndex1_bytes [OF len assms(2)])
    ultimately show ?thesis using assms(1) by (auto simp: arr_inv_def)
  next
    case (Switch_arr p')
    then have [simp]: "p' = p" using assms(3) by simp
    let ?s1 = "?s\<lparr>fCounter_arr := switch_body p (fCounter_arr ?s)\<rparr>"
    have st: "step_arr x c = Inr (c\<lparr>exch_arr := ?s1,
        switched_arr := (GetIndex1 (fCounter_arr ?s) p \<noteq> 0) # switched_arr c\<rparr>)"
      using Switch_arr by (simp add: bind_res_def TrySwitchState_result_arr_eq [OF p4])
    show ?thesis
    proof (cases "GetIndex1 (fCounter_arr ?s) p = 0")
      case True
      then have "?s1 = ?s" by (simp add: switch_body_idle)
      then show ?thesis using st assms(1) by (simp add: arr_inv_def)
    next
      case False
      note b = switch_body_bytes [OF len assms(2) False]
      have h: "held c = []" using assms(1) False by (auto simp: arr_inv_def)
      have cur: "ReadCurrentState_arr ?s1 = (if ReadCurrentState_arr ?s = p then 0 else p)"
        by (simp add: ReadCurrentState_arr_def b(1) SwapIndex1_toggle [OF assms(2)])
      have "wf_arr ?s1"
        using wf cur assms(2) b(5) by (auto simp: wf_arr_def ReadCurrentState_arr_def)
      then show ?thesis using st h cur by (auto simp: arr_inv_def)
    qed
  qed
qed

lemma run_arr_inv:
  "arr_inv p c \<Longrightarrow> p \<in> {1, 2} \<Longrightarrow> \<forall>x\<in>set xs. op_id x = p
     \<Longrightarrow> \<exists>c1. run_arr xs c = Inr c1 \<and> arr_inv p c1"
proof (induction xs arbitrary: c)
  case Nil
  then show ?case by simp
next
  case (Cons x xs)
  from Cons.prems obtain c2 where s: "step_arr x c = Inr c2" and i2: "arr_inv p c2"
    using step_arr_inv [of p c x] by auto
  from Cons.IH [OF i2 Cons.prems(2)] Cons.prems(3) s show ?case
    by (simp add: bind_res_def)
qed

lemma array_one_writer_slot_never_current:
  assumes "p \<in> {1, 2}" and "\<forall>x\<in>set xs. op_id x = p"
  shows "\<exists>c. run_arr xs (start_arr (JackAtomicArrayState_init a b d)) = Inr c
           \<and> (\<forall>(q, i)\<in>set (held c). i \<noteq> ReadCurrentState_arr (exch_arr c))"
proof -
  have "arr_inv p (start_arr (JackAtomicArrayState_init a b d))"
    by (simp add: arr_inv_def wf_arr_def start_arr_def JackAtomicArrayState_init_def
        ReadCurrentState_arr_def GetIndex1_def)
  from run_arr_inv [OF this assms] obtain c where
    r: "run_arr xs (start_arr (JackAtomicArrayState_init a b d)) = Inr c" and iv: "arr_inv p c"
    by blast
  have "\<forall>(q, i)\<in>set (held c). i \<noteq> ReadCurrentState_arr (exch_arr c)"
    using iv assms(1) by (auto simp: arr_inv_def)
  then show ?thesis using r by blast
qed

end
